theory Spec2Isabelle
  imports Main
begin

section \<open>Python helpers\<close>

text \<open>
  A character is one of the code points \<^verbatim>\<open>U+0000\<close> to \<^verbatim>\<open>U+00FF\<close> (ASCII and the
  Latin-1 supplement), and a text is a list of them. The regular expressions of
  \<^verbatim>\<open>utils.py\<close> are \<^verbatim>\<open>str\<close> patterns, so their class \<^verbatim>\<open>\w\<close> is the Unicode one: the
  underscore and every character that \<^verbatim>\<open>str.isalnum\<close> accepts. Below \<^verbatim>\<open>U+0100\<close> these
  are the ASCII digits and letters, the ordinal indicators \<^verbatim>\<open>U+00AA\<close> and \<^verbatim>\<open>U+00BA\<close>,
  the superscript digits \<^verbatim>\<open>U+00B2\<close>, \<^verbatim>\<open>U+00B3\<close>, \<^verbatim>\<open>U+00B9\<close>, the micro sign
  \<^verbatim>\<open>U+00B5\<close>, the fractions \<^verbatim>\<open>U+00BC\<close> to \<^verbatim>\<open>U+00BE\<close>, and the letters
  \<^verbatim>\<open>U+00C0\<close> to \<^verbatim>\<open>U+00FF\<close> without the signs \<^verbatim>\<open>U+00D7\<close> and \<^verbatim>\<open>U+00F7\<close>.
  \<^verbatim>\<open>str.lower\<close> moves the upper-case letters \<^verbatim>\<open>A-Z\<close>, \<^verbatim>\<open>U+00C0\<close> to \<^verbatim>\<open>U+00D6\<close> and
  \<^verbatim>\<open>U+00D8\<close> to \<^verbatim>\<open>U+00DE\<close> up by 32 and keeps every other character.
\<close>

definition is_word_char :: "char \<Rightarrow> bool" where
  "is_word_char c =
     (let n = (of_char c :: int)
      in (48 \<le> n \<and> n \<le> 57) \<or> (65 \<le> n \<and> n \<le> 90) \<or> n = 95 \<or> (97 \<le> n \<and> n \<le> 122)
         \<or> n = 170 \<or> n = 178 \<or> n = 179 \<or> n = 181 \<or> n = 185 \<or> n = 186
         \<or> (188 \<le> n \<and> n \<le> 190) \<or> (192 \<le> n \<and> n \<le> 214)
         \<or> (216 \<le> n \<and> n \<le> 246) \<or> (248 \<le> n \<and> n \<le> 255))"

definition is_upper_char :: "char \<Rightarrow> bool" where
  "is_upper_char c =
     (let n = (of_char c :: int)
      in (65 \<le> n \<and> n \<le> 90) \<or> (192 \<le> n \<and> n \<le> 214) \<or> (216 \<le> n \<and> n \<le> 222))"

definition lower_char :: "char \<Rightarrow> char" where
  "lower_char c = (if is_upper_char c then char_of (of_char c + 32 :: int) else c)"

definition lower :: "string \<Rightarrow> string" where
  "lower s = map lower_char s"

text \<open>
  \<^verbatim>\<open>re.findall(r'#\w+', content)\<close>: scanning from the left, a \<^verbatim>\<open>#\<close> followed by at
  least one word character starts a match that takes the whole run of word characters;
  the scan goes on after the match. A \<^verbatim>\<open>#\<close> with no word character after it is skipped.
\<close>

function findall_hashtag :: "string \<Rightarrow> string list" where
  "findall_hashtag [] = []"
| "findall_hashtag (c # cs) =
     (if c = CHR ''#'' \<and> takeWhile is_word_char cs \<noteq> []
      then (c # takeWhile is_word_char cs) # findall_hashtag (dropWhile is_word_char cs)
      else findall_hashtag cs)"
  by pat_completeness auto
termination
  by (relation "measure length") (auto simp: length_dropWhile_le less_Suc_eq_le)

text \<open>
  \<^verbatim>\<open>re.findall(r'\b\w{4,}\b', s)\<close>: the matches are the maximal runs of word characters
  that have at least four characters (a shorter run has no word boundary inside it, so
  nothing matches there).
\<close>

function findall_words :: "string \<Rightarrow> string list" where
  "findall_words [] = []"
| "findall_words (c # cs) =
     (if is_word_char c
      then (if 4 \<le> length (c # takeWhile is_word_char cs)
            then [c # takeWhile is_word_char cs] else [])
           @ findall_words (dropWhile is_word_char cs)
      else findall_words cs)"
  by pat_completeness auto
termination
  by (relation "measure length") (auto simp: length_dropWhile_le less_Suc_eq_le)

text \<open>
  \<^verbatim>\<open>collections.Counter(words)\<close> keeps its keys in the order of first occurrence;
  \<^verbatim>\<open>most_common(n)\<close> sorts by count, largest first, keeping that order among equal
  counts, and returns the first \<open>n\<close> pairs.
\<close>

fun counter_add :: "('a \<times> nat) list \<Rightarrow> 'a \<Rightarrow> ('a \<times> nat) list" where
  "counter_add [] w = [(w, 1)]"
| "counter_add ((k, n) # kvs) w =
     (if k = w then (k, Suc n) # kvs else (k, n) # counter_add kvs w)"

definition Counter :: "'a list \<Rightarrow> ('a \<times> nat) list" where
  "Counter ws = fold (\<lambda>w cnt. counter_add cnt w) ws []"

definition most_common :: "nat \<Rightarrow> ('a \<times> nat) list \<Rightarrow> ('a \<times> nat) list" where
  "most_common n cnt = take n (sort_key (\<lambda>kv. - int (snd kv)) cnt)"

text \<open>
  \<^verbatim>\<open>list(dict.fromkeys(xs))\<close>: the elements of \<open>xs\<close> in the order of their first
  occurrence, each once.
\<close>

definition dict_fromkeys :: "'a list \<Rightarrow> 'a list" where
  "dict_fromkeys xs = fold (\<lambda>k d. if k \<in> set d then d else d @ [k]) xs []"

text \<open>
  The slice \<^verbatim>\<open>xs[:n]\<close> for a Python integer \<open>n\<close>: the first \<open>n\<close> elements when
  \<open>n\<close> is not negative, all but the last \<open>-n\<close> elements when it is.
\<close>

definition slice_to :: "'a list \<Rightarrow> int \<Rightarrow> 'a list" where
  "slice_to xs n = (if 0 \<le> n then take (nat n) xs else take (length xs - nat (- n)) xs)"

section \<open>Hashtag generator (utils.py)\<close>

definition existing_tags :: "string \<Rightarrow> string list" where
  "existing_tags content = map tl (findall_hashtag content)"

definition common_words :: "string \<Rightarrow> string list" where
  "common_words content = map fst (most_common 5 (Counter (findall_words (lower content))))"

definition generate_hashtags :: "string \<Rightarrow> string \<Rightarrow> int \<Rightarrow> bool \<Rightarrow> string list" where
  "generate_hashtags content platform max_count include_trending =
     (let hashtags = existing_tags content;
          common = common_words content;
          (max_count', hashtags') =
            (if platform = ''instagram'' then (min max_count 30, hashtags @ common)
             else if platform = ''twitter'' then (min max_count 3, hashtags @ take 2 common)
             else if platform = ''linkedin'' then (min max_count 5, hashtags @ take 3 common)
             else (max_count, hashtags))
      in slice_to (dict_fromkeys hashtags') max_count')"



text \<open>What the source appends and keeps, by platform.\<close>

definition appended_count :: "string \<Rightarrow> nat" where
  "appended_count platform =
     (if platform = ''instagram'' then 5
      else if platform = ''twitter'' then 2
      else if platform = ''linkedin'' then 3
      else 0)"

definition total_cap :: "string \<Rightarrow> int \<Rightarrow> int" where
  "total_cap platform max_count =
     (if platform = ''instagram'' then min max_count 30
      else if platform = ''twitter'' then min max_count 3
      else if platform = ''linkedin'' then min max_count 5
      else max_count)"





section \<open>Errors\<close>

text \<open>
  A raised Python exception is a value: its class and its message. \<open>str_error\<close> is
  \<^verbatim>\<open>str(e)\<close>; for a \<^verbatim>\<open>KeyError\<close> that is the key in quotes. The last three classes
  derive from \<^verbatim>\<open>BaseException\<close> and not from \<^verbatim>\<open>Exception\<close>
  (\<^verbatim>\<open>asyncio.CancelledError\<close> since Python 3.8): a clause \<^verbatim>\<open>except Exception\<close> does not
  catch them. \<open>is_exception e\<close> is \<^verbatim>\<open>isinstance(e, Exception)\<close>.
\<close>

datatype error =
    Exception string
  | ValueError string
  | KeyError string
  | TypeError string
  | AttributeError string
  | NameError string
  | ValidationError string
  | OverflowError string
  | CancelledError string
  | KeyboardInterrupt string
  | SystemExit string

fun str_error :: "error \<Rightarrow> string" where
  "str_error (Exception m) = m"
| "str_error (ValueError m) = m"
| "str_error (KeyError k) = [CHR 0x27] @ k @ [CHR 0x27]"
| "str_error (TypeError m) = m"
| "str_error (AttributeError m) = m"
| "str_error (NameError m) = m"
| "str_error (ValidationError m) = m"
| "str_error (OverflowError m) = m"
| "str_error (CancelledError m) = m"
| "str_error (KeyboardInterrupt m) = m"
| "str_error (SystemExit m) = m"

fun is_exception :: "error \<Rightarrow> bool" where
  "is_exception (CancelledError m) = False"
| "is_exception (KeyboardInterrupt m) = False"
| "is_exception (SystemExit m) = False"
| "is_exception e = True"

definition bindE :: "error + 'a \<Rightarrow> ('a \<Rightarrow> error + 'b) \<Rightarrow> error + 'b" where
  "bindE m f = (case m of Inl e \<Rightarrow> Inl e | Inr x \<Rightarrow> f x)"

section \<open>Dates and times\<close>

text \<open>
  A timezone-aware UTC \<^verbatim>\<open>datetime\<close>: the date as its day number
  (\<^verbatim>\<open>date.toordinal()\<close>) and the time of day. \<^verbatim>\<open>replace\<close> keeps the date,
  \<^verbatim>\<open>+ timedelta(days=n)\<close> moves the day number, and \<^verbatim>\<open><\<close> compares the fields from
  the date down. The dates of Python run from 0001-01-01, day number 1, to 9999-12-31,
  day number 3652059; an addition that leaves this range raises \<^verbatim>\<open>OverflowError\<close>.
\<close>

record datetime =
  ordinal :: int
  hour :: nat
  minute :: nat
  second :: nat
  microsecond :: nat

definition replace_hour :: "datetime \<Rightarrow> int \<Rightarrow> error + datetime" where
  \<comment> \<open>\<^verbatim>\<open>d.replace(hour=h, minute=0, second=0, microsecond=0)\<close>\<close>
  "replace_hour d h =
     (if 0 \<le> h \<and> h \<le> 23
      then Inr (d\<lparr>hour := nat h, minute := 0, second := 0, microsecond := 0\<rparr>)
      else Inl (ValueError ''hour must be in 0..23''))"

definition min_ordinal :: int where "min_ordinal = 1"
definition max_ordinal :: int where "max_ordinal = 3652059"

definition valid_datetime :: "datetime \<Rightarrow> bool" where
  "valid_datetime d =
     (min_ordinal \<le> ordinal d \<and> ordinal d \<le> max_ordinal
      \<and> hour d < 24 \<and> minute d < 60 \<and> second d < 60 \<and> microsecond d < 1000000)"

definition shift_days :: "datetime \<Rightarrow> int \<Rightarrow> datetime" where
  \<comment> \<open>the date \<open>n\<close> days on, the time of day kept\<close>
  "shift_days d n = d\<lparr>ordinal := ordinal d + n\<rparr>"

definition add_days :: "datetime \<Rightarrow> int \<Rightarrow> error + datetime" where
  \<comment> \<open>\<^verbatim>\<open>d + timedelta(days=n)\<close>\<close>
  "add_days d n =
     (if min_ordinal \<le> ordinal d + n \<and> ordinal d + n \<le> max_ordinal
      then Inr (shift_days d n)
      else Inl (OverflowError ''date value out of range''))"

definition add_hours :: "datetime \<Rightarrow> nat \<Rightarrow> error + datetime" where
  \<comment> \<open>\<^verbatim>\<open>d + timedelta(hours=n)\<close>\<close>
  "add_hours d n =
     (if min_ordinal \<le> ordinal d + int ((hour d + n) div 24)
         \<and> ordinal d + int ((hour d + n) div 24) \<le> max_ordinal
      then Inr (d\<lparr>ordinal := ordinal d + int ((hour d + n) div 24),
                  hour := (hour d + n) mod 24\<rparr>)
      else Inl (OverflowError ''date value out of range''))"

definition dt_less :: "datetime \<Rightarrow> datetime \<Rightarrow> bool" where
  "dt_less a b =
     (ordinal a < ordinal b \<or> (ordinal a = ordinal b \<and>
       (hour a < hour b \<or> (hour a = hour b \<and>
         (minute a < minute b \<or> (minute a = minute b \<and>
           (second a < second b \<or> (second a = second b \<and>
             microsecond a < microsecond b))))))))"

section \<open>Floating point\<close>

text \<open>
  A Python \<^verbatim>\<open>float\<close> is an IEEE 754 double. A double is kept as a pair
  \<open>(m, e)\<close> with value \<open>m * 2 ^ e\<close>; every operation rounds its exact result to 53
  significant bits, to nearest, ties to even. Overflow and subnormal numbers are out of
  the range of the values used here, and an integer operand is below \<open>2 ^ 53\<close>.
\<close>

type_synonym pyfloat = "int \<times> int"

function bit_length :: "int \<Rightarrow> nat" where
  "bit_length n = (if n \<le> 0 then 0 else Suc (bit_length (n div 2)))"
  by pat_completeness auto
termination
  by (relation "measure nat") auto

declare bit_length.simps [simp del]

definition round_half_even :: "int \<Rightarrow> int \<Rightarrow> int" where
  "round_half_even num den =
     (let q = num div den; r = num mod den
      in if 2 * r < den then q
         else if den < 2 * r then q + 1
         else if even q then q else q + 1)"

definition round_double :: "int \<Rightarrow> int \<Rightarrow> pyfloat" where
  \<comment> \<open>the double nearest to \<open>p / q\<close>, for \<open>0 \<le> p\<close> and \<open>0 < q\<close>\<close>
  "round_double p q =
     (if p = 0 then (0, 0)
      else
        let k = int (bit_length p) - int (bit_length q) - 53;
            e = (if q * 2 ^ nat k * 2 ^ 53 \<le> p * 2 ^ nat (- k) then k + 1 else k)
        in (round_half_even (p * 2 ^ nat (- e)) (q * 2 ^ nat e), e))"

definition py_truediv :: "int \<Rightarrow> int \<Rightarrow> pyfloat" where
  \<comment> \<open>\<^verbatim>\<open>a / b\<close> on integers, for \<open>0 < b\<close>\<close>
  "py_truediv a b =
     (if 0 \<le> a then round_double a b
      else (- fst (round_double (- a) b), snd (round_double (- a) b)))"

definition py_mul_int_float :: "int \<Rightarrow> pyfloat \<Rightarrow> pyfloat" where
  \<comment> \<open>\<^verbatim>\<open>i * x\<close> for an integer \<open>0 \<le> i\<close> and a float \<open>x\<close>\<close>
  "py_mul_int_float i x =
     (if 0 \<le> snd x then round_double (i * fst x * 2 ^ nat (snd x)) 1
      else round_double (i * fst x) (2 ^ nat (- snd x)))"

definition py_int :: "pyfloat \<Rightarrow> int" where
  \<comment> \<open>\<^verbatim>\<open>int(x)\<close>: truncation\<close>
  "py_int x =
     (if 0 \<le> snd x then fst x * 2 ^ nat (snd x) else fst x div 2 ^ nat (- snd x))"

section \<open>Scheduling heuristic (utils.py)\<close>

text \<open>
  The posts are dictionaries that \<open>schedule_content_calendar\<close> mutates in place and
  appends to its result, so they live in a store, addressed by references; two list
  positions may hold the same dictionary. The key \<^verbatim>\<open>scheduled_time\<close> receives the
  \<^verbatim>\<open>isoformat()\<close> of a datetime and is kept here as that datetime; the other keys are
  not touched. Each \<^verbatim>\<open>datetime.now(timezone.utc)\<close> reads the clock: \<open>clock k\<close> is the
  reading of the \<open>k\<close>-th call, two for each post.
\<close>

type_synonym ref = nat

record 'a post_dict =
  other_keys :: 'a
  scheduled_time :: "datetime option"

type_synonym 'a store = "ref \<Rightarrow> 'a post_dict"

definition set_scheduled_time :: "'a store \<Rightarrow> ref \<Rightarrow> datetime \<Rightarrow> 'a store" where
  "set_scheduled_time st p t = st(p := (st p)\<lparr>scheduled_time := Some t\<rparr>)"

definition start_hour :: int where "start_hour = 9"
definition end_hour :: int where "end_hour = 20"

definition peak_times :: "int list" where
  "peak_times = [9, 12, 17, 19]"

fun even_spacing_loop ::
  "(nat \<Rightarrow> datetime) \<Rightarrow> pyfloat \<Rightarrow> nat \<Rightarrow> ref list \<Rightarrow> 'a store \<Rightarrow> ref list
     \<Rightarrow> 'a store \<times> (error + ref list)" where
  "even_spacing_loop clock interval i [] st scheduled_posts = (st, Inr scheduled_posts)"
| "even_spacing_loop clock interval i (post # posts) st scheduled_posts =
     (case bindE (replace_hour (clock (2 * i))
                    (start_hour + py_int (py_mul_int_float (int i) interval)))
             (\<lambda>t. if dt_less t (clock (2 * i + 1)) then add_days t 1 else Inr t) of
        Inl e \<Rightarrow> (st, Inl e)
      | Inr t \<Rightarrow>
          even_spacing_loop clock interval (Suc i) posts
            (set_scheduled_time st post t) (scheduled_posts @ [post]))"

fun peak_times_loop ::
  "(nat \<Rightarrow> datetime) \<Rightarrow> nat \<Rightarrow> ref list \<Rightarrow> 'a store \<Rightarrow> ref list
     \<Rightarrow> 'a store \<times> (error + ref list)" where
  "peak_times_loop clock i [] st scheduled_posts = (st, Inr scheduled_posts)"
| "peak_times_loop clock i (post # posts) st scheduled_posts =
     (case bindE (replace_hour (clock (2 * i)) (peak_times ! (i mod length peak_times)))
             (\<lambda>t. bindE (if dt_less t (clock (2 * i + 1)) then add_days t 1 else Inr t)
             (\<lambda>t'. if length peak_times \<le> i
                    then add_days t' (int (i div length peak_times)) else Inr t')) of
        Inl e \<Rightarrow> (st, Inl e)
      | Inr t \<Rightarrow>
          peak_times_loop clock (Suc i) posts
            (set_scheduled_time st post t) (scheduled_posts @ [post]))"

definition schedule_content_calendar ::
  "(nat \<Rightarrow> datetime) \<Rightarrow> 'a store \<Rightarrow> ref list \<Rightarrow> string \<Rightarrow> 'a store \<times> (error + ref list)" where
  "schedule_content_calendar clock st posts strategy =
     (if strategy = ''even_spacing'' then
        (if 0 < length posts
         then even_spacing_loop clock
                (py_truediv (end_hour - start_hour) (int (length posts))) 0 posts st []
         else (st, Inr []))
      else if strategy = ''peak_times'' then peak_times_loop clock 0 posts st []
      else (st, Inr []))"

text \<open>
  The timestamps in closed form. \<open>at_hour d h\<close> is the hour \<open>h\<close> sharp on the day of
  \<open>d\<close>; \<open>rolled r1 r2 h\<close> is that hour on the day of the reading \<open>r1\<close>, moved forward
  one day when it is before the reading \<open>r2\<close>. Post \<open>i\<close> is handled between the
  readings \<open>clock (2 * i)\<close> and \<open>clock (2 * i + 1)\<close>; for the peak times its slot is
  \<open>i div 4\<close> whole days further on. \<open>spec_even_hour\<close> is the hour
  \<open>9 + floor(i * (20 - 9) / N)\<close> in exact arithmetic; \<open>even_hour\<close> is the hour the
  source computes in floating point.
\<close>

definition at_hour :: "datetime \<Rightarrow> int \<Rightarrow> datetime" where
  "at_hour d h = d\<lparr>hour := nat h, minute := 0, second := 0, microsecond := 0\<rparr>"

definition rolled :: "datetime \<Rightarrow> datetime \<Rightarrow> int \<Rightarrow> datetime" where
  "rolled r1 r2 h =
     (if dt_less (at_hour r1 h) r2 then shift_days (at_hour r1 h) 1 else at_hour r1 h)"

definition peak_slot :: "(nat \<Rightarrow> datetime) \<Rightarrow> nat \<Rightarrow> datetime" where
  "peak_slot clock i =
     shift_days (rolled (clock (2 * i)) (clock (2 * i + 1)) ([9, 12, 17, 19] ! (i mod 4)))
       (int (i div 4))"

definition even_hour :: "nat \<Rightarrow> nat \<Rightarrow> int" where
  "even_hour n i = 9 + py_int (py_mul_int_float (int i) (py_truediv 11 (int n)))"

definition spec_even_hour :: "nat \<Rightarrow> nat \<Rightarrow> int" where
  "spec_even_hour n i = 9 + (int i * (20 - 9)) div int n"

definition even_slot :: "(nat \<Rightarrow> datetime) \<Rightarrow> nat \<Rightarrow> nat \<Rightarrow> datetime" where
  "even_slot clock n i = rolled (clock (2 * i)) (clock (2 * i + 1)) (even_hour n i)"

text \<open>
  The store after the posts of a list have received, in order, the timestamps
  \<open>f i\<close>, \<open>f (i + 1)\<close>, ...: a post that occurs twice keeps the later one.
\<close>

fun assign_times :: "(nat \<Rightarrow> datetime) \<Rightarrow> nat \<Rightarrow> ref list \<Rightarrow> 'a store \<Rightarrow> 'a store" where
  "assign_times f i [] st = st"
| "assign_times f i (post # posts) st =
     assign_times f (Suc i) posts (set_scheduled_time st post (f i))"

section \<open>Python values (server.py)\<close>

text \<open>
  Tool payloads and results are JSON-shaped Python values; a dictionary keeps its keys in
  insertion order, and assigning to a key that is present replaces its value in place.
  A \<^verbatim>\<open>datetime\<close> inside a result is the one kind of value \<^verbatim>\<open>json.dumps\<close> refuses.

  The model follows the source on payloads whose values have the types the tool schemas
  declare, with any key present or absent. On a value of another type it reports a
  \<^verbatim>\<open>TypeError\<close> at the first use, where Python may fail later or with another class; the
  messages of such errors are representative.
\<close>

datatype pyval =
    PNone
  | PBool bool
  | PInt int
  | PFloat pyfloat
  | PStr string
  | PList "pyval list"
  | PDict "(string \<times> pyval) list"
  | PDatetime datetime

fun truthy :: "pyval \<Rightarrow> bool" where
  "truthy PNone = False"
| "truthy (PBool b) = b"
| "truthy (PInt n) = (n \<noteq> 0)"
| "truthy (PFloat x) = (fst x \<noteq> 0)"
| "truthy (PStr s) = (s \<noteq> [])"
| "truthy (PList xs) = (xs \<noteq> [])"
| "truthy (PDict kvs) = (kvs \<noteq> [])"
| "truthy (PDatetime d) = True"

fun dict_set :: "(string \<times> 'v) list \<Rightarrow> string \<Rightarrow> 'v \<Rightarrow> (string \<times> 'v) list" where
  "dict_set [] k v = [(k, v)]"
| "dict_set ((k', v') # kvs) k v =
     (if k' = k then (k', v) # kvs else (k', v') # dict_set kvs k v)"

fun getitem :: "pyval \<Rightarrow> string \<Rightarrow> error + pyval" where
  "getitem (PDict kvs) k = (case map_of kvs k of Some v \<Rightarrow> Inr v | None \<Rightarrow> Inl (KeyError k))"
| "getitem v k = Inl (TypeError ''object is not subscriptable by a string key'')"

fun py_get :: "pyval \<Rightarrow> string \<Rightarrow> pyval \<Rightarrow> error + pyval" where
  "py_get (PDict kvs) k dflt = Inr (case map_of kvs k of Some v \<Rightarrow> v | None \<Rightarrow> dflt)"
| "py_get v k dflt = Inl (AttributeError ''object has no attribute get'')"

fun py_in :: "string \<Rightarrow> pyval \<Rightarrow> error + bool" where
  "py_in k (PDict kvs) = Inr (map_of kvs k \<noteq> None)"
| "py_in k v = Inl (TypeError ''argument is not a dictionary'')"

fun setitem :: "pyval \<Rightarrow> string \<Rightarrow> pyval \<Rightarrow> error + pyval" where
  "setitem (PDict kvs) k v = Inr (PDict (dict_set kvs k v))"
| "setitem d k v = Inl (TypeError ''object does not support item assignment'')"

fun as_str :: "pyval \<Rightarrow> error + string" where
  "as_str (PStr s) = Inr s"
| "as_str v = Inl (TypeError ''expected a string'')"

fun as_int :: "pyval \<Rightarrow> error + int" where
  "as_int (PInt n) = Inr n"
| "as_int v = Inl (TypeError ''expected an integer'')"

fun as_list :: "pyval \<Rightarrow> error + pyval list" where
  "as_list (PList xs) = Inr xs"
| "as_list v = Inl (TypeError ''expected a list'')"

fun str_items :: "pyval list \<Rightarrow> error + string list" where
  "str_items [] = Inr []"
| "str_items (PStr s # vs) =
     (case str_items vs of Inl e \<Rightarrow> Inl e | Inr ss \<Rightarrow> Inr (s # ss))"
| "str_items (v # vs) = Inl (TypeError ''expected a string'')"

definition as_str_list :: "pyval \<Rightarrow> error + string list" where
  "as_str_list v = bindE (as_list v) str_items"

text \<open>
  \<^verbatim>\<open>json.dumps\<close> raises a \<^verbatim>\<open>TypeError\<close> on a value that holds a \<^verbatim>\<open>datetime\<close>. The text
  it returns otherwise is kept as the JSON document it renders.
\<close>

fun serializable :: "pyval \<Rightarrow> bool"
  and serializable_list :: "pyval list \<Rightarrow> bool"
  and serializable_items :: "(string \<times> pyval) list \<Rightarrow> bool" where
  "serializable (PList xs) = serializable_list xs"
| "serializable (PDict kvs) = serializable_items kvs"
| "serializable (PDatetime d) = False"
| "serializable PNone = True"
| "serializable (PBool b) = True"
| "serializable (PInt n) = True"
| "serializable (PFloat x) = True"
| "serializable (PStr s) = True"
| "serializable_list [] = True"
| "serializable_list (x # xs) = (serializable x \<and> serializable_list xs)"
| "serializable_items [] = True"
| "serializable_items (kv # kvs) = (serializable (snd kv) \<and> serializable_items kvs)"

definition json_dumps :: "pyval \<Rightarrow> error + pyval" where
  "json_dumps v =
     (if serializable v then Inr v
      else Inl (TypeError ''Object of type datetime is not JSON serializable''))"

text \<open>Decimal digits of a natural number, for the messages that quote a length.\<close>

function str_of_nat :: "nat \<Rightarrow> string" where
  "str_of_nat n =
     (if n < 10 then [char_of (48 + n)]
      else str_of_nat (n div 10) @ [char_of (48 + n mod 10)])"
  by pat_completeness auto
termination
  by (relation "measure id") auto

declare str_of_nat.simps [simp del]

section \<open>Content validation (utils.py)\<close>




section \<open>Data model (models.py)\<close>

definition PlatformType :: "string list" where
  "PlatformType = [''twitter'', ''linkedin'', ''instagram'', ''facebook'', ''tiktok'']"

definition MediaType :: "string list" where
  "MediaType = [''image'', ''video'', ''gif'', ''carousel'']"

text \<open>
  The models are pydantic classes: constructing one validates the fields against their
  declared types, and a string that is no member of the declared enumeration raises a
  \<^verbatim>\<open>ValidationError\<close> (its message depends on the pydantic version; a representative
  one is used). Identifiers are \<^verbatim>\<open>uuid4\<close> strings. Fields that the server never
  sets or reads (mentions, location, metadata, creation and update times) are left out.
\<close>

record media_asset =
  media_type :: string
  media_path :: string
  media_alt_text :: "string option"

record post =
  post_id :: string
  post_text :: string
  post_media :: "media_asset list"
  post_hashtags :: "string list"
  post_platforms :: "string list"
  post_scheduled_time :: "datetime option"

record post_result =
  result_success :: bool
  result_platform :: string
  result_post_id :: "string option"
  result_url :: "string option"
  result_error :: "string option"
  result_timestamp :: datetime

record analytics =
  analytics_platform :: string
  analytics_metrics :: "(string \<times> int) list"
  analytics_date_range :: pyval
  analytics_post_ids :: pyval
  analytics_demographic_data :: pyval
  analytics_top_content :: pyval

record scheduled_post =
  scheduled_id :: string
  scheduled_post :: post
  scheduled_platform :: string
  scheduled_at :: datetime
  scheduled_status :: string

definition enum_error :: "string \<Rightarrow> string \<Rightarrow> error" where
  "enum_error model v =
     ValidationError (''validation error for '' @ model @ '': '' @ v
                        @ '' is not a valid enumeration member'')"

definition MediaAsset :: "string \<Rightarrow> string \<Rightarrow> pyval \<Rightarrow> error + media_asset" where
  "MediaAsset ty path alt_text =
     (if ty \<notin> set MediaType then Inl (enum_error ''MediaAsset'' ty)
      else case alt_text of
             PStr s \<Rightarrow> Inr \<lparr>media_type = ty, media_path = path, media_alt_text = Some s\<rparr>
           | PNone \<Rightarrow> Inr \<lparr>media_type = ty, media_path = path, media_alt_text = None\<rparr>
           | _ \<Rightarrow> Inl (ValidationError ''validation error for MediaAsset: alt_text''))"

definition Post ::
  "string \<Rightarrow> pyval \<Rightarrow> media_asset list \<Rightarrow> pyval \<Rightarrow> string list \<Rightarrow> datetime option
     \<Rightarrow> error + post" where
  "Post ident text media hashtags requested at =
     (case text of
        PStr t \<Rightarrow>
          (case as_str_list hashtags of
             Inr tags \<Rightarrow>
               (case filter (\<lambda>p. p \<notin> set PlatformType) requested of
                  [] \<Rightarrow> Inr \<lparr>post_id = ident, post_text = t, post_media = media,
                             post_hashtags = tags, post_platforms = requested,
                             post_scheduled_time = at\<rparr>
                | bad # _ \<Rightarrow> Inl (enum_error ''Post'' bad))
           | Inl _ \<Rightarrow> Inl (ValidationError ''validation error for Post: hashtags''))
      | _ \<Rightarrow> Inl (ValidationError ''validation error for Post: text''))"

definition ScheduledPost ::
  "string \<Rightarrow> post \<Rightarrow> string \<Rightarrow> datetime \<Rightarrow> error + scheduled_post" where
  "ScheduledPost ident p platform at =
     (if platform \<in> set PlatformType
      then Inr \<lparr>scheduled_id = ident, scheduled_post = p, scheduled_platform = platform,
                scheduled_at = at, scheduled_status = ''pending''\<rparr>
      else Inl (enum_error ''ScheduledPost'' platform))"

definition opt_str :: "string option \<Rightarrow> pyval" where
  "opt_str s = (case s of None \<Rightarrow> PNone | Some x \<Rightarrow> PStr x)"

definition post_result_dict :: "post_result \<Rightarrow> pyval" where
  \<comment> \<open>\<^verbatim>\<open>PostResult.dict()\<close>\<close>
  "post_result_dict r =
     PDict [(''success'', PBool (result_success r)),
            (''platform'', PStr (result_platform r)),
            (''post_id'', opt_str (result_post_id r)),
            (''url'', opt_str (result_url r)),
            (''error'', opt_str (result_error r)),
            (''timestamp'', PDatetime (result_timestamp r))]"

definition analytics_dict :: "analytics \<Rightarrow> pyval" where
  \<comment> \<open>\<^verbatim>\<open>Analytics.dict()\<close>: the metrics are nested under the key \<^verbatim>\<open>metrics\<close>\<close>
  "analytics_dict a =
     PDict [(''platform'', PStr (analytics_platform a)),
            (''metrics'', PDict (map (\<lambda>kv. (fst kv, PInt (snd kv))) (analytics_metrics a))),
            (''date_range'', analytics_date_range a),
            (''post_ids'', analytics_post_ids a),
            (''demographic_data'', analytics_demographic_data a),
            (''top_content'', analytics_top_content a)]"

section \<open>Module namespaces\<close>

text \<open>
  A name used in a function body is looked up in the globals of its module when the line
  runs; a name that no import or definition of the module binds raises a
  \<^verbatim>\<open>NameError\<close>. \<open>server_globals\<close> are the names bound in \<^verbatim>\<open>server.py\<close> (line 7 imports
  \<^verbatim>\<open>datetime\<close> and \<^verbatim>\<open>timezone\<close> from \<^verbatim>\<open>datetime\<close>), \<open>utils_globals\<close> those bound in
  \<^verbatim>\<open>utils.py\<close>.
\<close>

definition quoted :: "string \<Rightarrow> string" where
  "quoted s = [CHR 0x27] @ s @ [CHR 0x27]"

definition server_globals :: "string list" where
  "server_globals =
     [''asyncio'', ''json'', ''logging'', ''os'', ''datetime'', ''timezone'',
      ''Any'', ''Dict'', ''List'', ''Optional'', ''Union'',
      ''Server'', ''NotificationOptions'', ''InitializationOptions'', ''mcp'', ''types'',
      ''TwitterClient'', ''LinkedInClient'', ''InstagramClient'', ''FacebookClient'',
      ''PlatformClient'', ''Post'', ''PostResult'', ''Analytics'', ''ScheduledPost'',
      ''MediaAsset'', ''optimize_image'', ''optimize_video'', ''generate_hashtags'',
      ''find_optimal_posting_time'', ''logger'', ''SocialMediaMCPServer'', ''main'']"

definition utils_globals :: "string list" where
  "utils_globals =
     [''os'', ''re'', ''datetime'', ''timedelta'', ''timezone'',
      ''List'', ''Dict'', ''Optional'', ''Tuple'', ''hashlib'', ''Path'', ''logging'',
      ''aiofiles'', ''asyncio'', ''Image'', ''ImageDraw'', ''ImageFont'', ''ImageFilter'',
      ''cv2'', ''np'', ''httpx'', ''Counter'', ''json'', ''PlatformType'',
      ''HashtagRecommendation'', ''logger'', ''PLATFORM_MEDIA_SPECS'',
      ''optimize_image'', ''optimize_video'', ''generate_hashtags'',
      ''find_optimal_posting_time'', ''analyze_hashtag_performance'',
      ''calculate_engagement_rate'', ''format_caption_with_mentions'',
      ''validate_post_content'', ''schedule_content_calendar'']"

definition lookup_global :: "string list \<Rightarrow> string \<Rightarrow> error + unit" where
  "lookup_global globals name =
     (if name \<in> set globals then Inr ()
      else Inl (NameError (''name '' @ quoted name @ '' is not defined'')))"

section \<open>The server and what is outside it\<close>

text \<open>
  A platform capability is an external client: its three operations either return or
  raise. The server keeps the registered capabilities by platform name and the calendar
  of scheduled posts. Two more components record what the calls do: \<open>invocations\<close> is
  the log of the capability posts, and \<open>uuid_draws\<close> counts the identifiers drawn.
\<close>

record capability =
  client_create_post :: "post \<Rightarrow> error + post_result"
  client_get_analytics :: "pyval \<Rightarrow> pyval \<Rightarrow> pyval \<Rightarrow> error + analytics"
  client_get_trending :: "pyval \<Rightarrow> pyval \<Rightarrow> error + pyval"

record server =
  platforms :: "string \<Rightarrow> capability option"
  scheduled_posts :: "scheduled_post list"
  invocations :: "(string \<times> post) list"
  uuid_draws :: nat

text \<open>
  The environment of a call: the clock reading, the identifiers \<^verbatim>\<open>uuid4\<close> hands out,
  the parser and printer of ISO 8601 timestamps, and the image and video libraries behind
  \<open>optimize_image\<close> and \<open>optimize_video\<close>. The results hold for every environment.
\<close>

record env =
  utc_now :: datetime
  uuid4 :: "nat \<Rightarrow> string"
  fromisoformat :: "string \<Rightarrow> datetime option"
  isoformat :: "datetime \<Rightarrow> string"
  optimize_image :: "pyval \<Rightarrow> pyval \<Rightarrow> error + string"
  write_videofile :: "pyval \<Rightarrow> pyval \<Rightarrow> error + string"

definition optimize_video :: "env \<Rightarrow> pyval \<Rightarrow> pyval \<Rightarrow> error + string" where
  \<comment> \<open>the body starts with \<^verbatim>\<open>mp.VideoFileClip\<close>; \<^verbatim>\<open>except Exception\<close> wraps what it catches\<close>
  "optimize_video environ video_path requested =
     (case bindE (lookup_global utils_globals ''mp'')
             (\<lambda>_. write_videofile environ video_path requested) of
        Inl e \<Rightarrow>
          (if is_exception e
           then Inl (Exception (''Video optimization failed: '' @ str_error e))
           else Inl e)
      | Inr path \<Rightarrow> Inr path)"

section \<open>Single-slot timing optimizer (utils.py)\<close>

definition best_times :: "(string \<times> nat list) list" where
  "best_times =
     [(''twitter'', [9, 12, 15, 17, 20]),
      (''instagram'', [11, 13, 17, 19]),
      (''linkedin'', [7, 10, 12, 17]),
      (''facebook'', [9, 13, 15, 19])]"

definition find_optimal_posting_time :: "datetime \<Rightarrow> string list \<Rightarrow> error + datetime" where
  "find_optimal_posting_time current requested =
     (let all_times =
            sort (remdups (concat (map (\<lambda>p. case map_of best_times p of
                                               Some ts \<Rightarrow> ts | None \<Rightarrow> []) requested)))
      in case all_times of
           [] \<Rightarrow> add_hours (current\<lparr>minute := 0, second := 0, microsecond := 0\<rparr>) 1
         | earliest # _ \<Rightarrow>
             (case filter (\<lambda>t. hour current < t) all_times of
                next_hour # _ \<Rightarrow>
                  Inr (current\<lparr>hour := next_hour, minute := 0, second := 0,
                               microsecond := 0\<rparr>)
              | [] \<Rightarrow>
                  bindE (add_days current 1)
                    (\<lambda>d. Inr (d\<lparr>hour := earliest, minute := 0, second := 0,
                                  microsecond := 0\<rparr>))))"

section \<open>Dispatch coordinator (server.py)\<close>

definition media_item :: "env \<Rightarrow> pyval \<Rightarrow> pyval \<Rightarrow> error + media_asset option" where
  "media_item environ requested media =
     bindE (getitem media ''type'') (\<lambda>ty.
       if ty = PStr ''image'' then
         bindE (getitem media ''path'') (\<lambda>path.
         bindE (optimize_image environ path requested) (\<lambda>optimized_path.
         bindE (py_get media ''alt_text'' (PStr [])) (\<lambda>alt.
         bindE (MediaAsset ''image'' optimized_path alt) (\<lambda>asset. Inr (Some asset)))))
       else if ty = PStr ''video'' then
         bindE (getitem media ''path'') (\<lambda>path.
         bindE (optimize_video environ path requested) (\<lambda>optimized_path.
         bindE (py_get media ''alt_text'' (PStr [])) (\<lambda>alt.
         bindE (MediaAsset ''video'' optimized_path alt) (\<lambda>asset. Inr (Some asset)))))
       else Inr None)"

fun media_loop ::
  "env \<Rightarrow> pyval \<Rightarrow> pyval list \<Rightarrow> media_asset list \<Rightarrow> error + media_asset list" where
  "media_loop environ requested [] media_assets = Inr media_assets"
| "media_loop environ requested (media # rest) media_assets =
     (case media_item environ requested media of
        Inl e \<Rightarrow> Inl e
      | Inr None \<Rightarrow> media_loop environ requested rest media_assets
      | Inr (Some asset) \<Rightarrow> media_loop environ requested rest (media_assets @ [asset]))"

definition process_media :: "env \<Rightarrow> pyval \<Rightarrow> pyval \<Rightarrow> error + media_asset list" where
  "process_media environ content requested =
     bindE (py_in ''media'' content) (\<lambda>present.
       if present then
         bindE (getitem content ''media'') (\<lambda>media.
         bindE (as_list media) (\<lambda>items. media_loop environ requested items []))
       else Inr [])"

definition content_hashtags :: "pyval \<Rightarrow> string list \<Rightarrow> error + pyval" where
  \<comment> \<open>the value of \<^verbatim>\<open>content["hashtags"]\<close> once the hashtags are settled\<close>
  "content_hashtags content requested =
     bindE (py_in ''hashtags'' content) (\<lambda>present.
     bindE (if present then getitem content ''hashtags'' else Inr PNone) (\<lambda>given.
       if present \<and> truthy given then Inr given
       else
         bindE (getitem content ''text'') (\<lambda>text.
         bindE (as_str text) (\<lambda>t.
           Inr (PList (map PStr
                  (generate_hashtags t
                     (case requested of [] \<Rightarrow> ''twitter'' | first # _ \<Rightarrow> first)
                     10 True)))))))"

definition parse_schedule :: "env \<Rightarrow> pyval \<Rightarrow> error + datetime" where
  \<comment> \<open>\<^verbatim>\<open>datetime.fromisoformat(schedule)\<close>\<close>
  "parse_schedule environ schedule =
     (case schedule of
        PStr s \<Rightarrow>
          (case fromisoformat environ s of
             Some d \<Rightarrow> Inr d
           | None \<Rightarrow> Inl (ValueError (''Invalid isoformat string: '' @ quoted s)))
      | _ \<Rightarrow> Inl (TypeError ''fromisoformat: argument must be str''))"

definition create_post_prepare ::
  "env \<Rightarrow> server \<Rightarrow> pyval \<Rightarrow> error + (post \<times> string list \<times> pyval)" where
  \<comment> \<open>the body of \<open>create_post\<close> down to the construction of the \<open>Post\<close>\<close>
  "create_post_prepare environ self args =
     bindE (getitem args ''platforms'') (\<lambda>requested_value.
     bindE (getitem args ''content'') (\<lambda>content.
     bindE (py_get args ''schedule'' PNone) (\<lambda>schedule.
     bindE (py_get args ''optimize_timing'' (PBool False)) (\<lambda>optimize_timing.
     bindE (as_str_list requested_value) (\<lambda>requested.
     bindE (process_media environ content requested_value) (\<lambda>media_assets.
     bindE (content_hashtags content requested) (\<lambda>hashtags.
     bindE (if truthy optimize_timing \<and> \<not> truthy schedule
            then bindE (find_optimal_posting_time (utc_now environ) requested)
                   (\<lambda>optimal_time. Inr (PStr (isoformat environ optimal_time)))
            else Inr schedule) (\<lambda>schedule'.
     bindE (getitem content ''text'') (\<lambda>text.
     bindE (if truthy schedule'
            then bindE (parse_schedule environ schedule') (\<lambda>d. Inr (Some d))
            else Inr None) (\<lambda>at.
     bindE (Post (uuid4 environ (uuid_draws self)) text media_assets hashtags requested at)
       (\<lambda>p. Inr (p, requested, schedule'))))))))))))"

definition not_configured :: "string \<Rightarrow> pyval" where
  "not_configured platform =
     PDict [(''success'', PBool False),
            (''error'', PStr (''Platform '' @ platform @ '' not configured''))]"

definition failure :: "error \<Rightarrow> pyval" where
  "failure e = PDict [(''success'', PBool False), (''error'', PStr (str_error e))]"

definition scheduled_ack :: "pyval \<Rightarrow> pyval" where
  "scheduled_ack schedule =
     PDict [(''success'', PBool True), (''scheduled'', PBool True),
            (''scheduled_time'', schedule)]"

text \<open>
  The loop over the requested platforms. The body of its \<^verbatim>\<open>try\<close> is the scheduling of
  the post or the call of the capability; \<^verbatim>\<open>except Exception\<close> turns what it catches
  into the failure entry of the platform, and anything else the capability raises leaves
  the loop and \<open>create_post\<close>.
\<close>

fun platform_loop ::
  "env \<Rightarrow> post \<Rightarrow> pyval \<Rightarrow> string list \<Rightarrow> server \<Rightarrow> (string \<times> pyval) list
     \<Rightarrow> server \<times> (error + (string \<times> pyval) list)" where
  "platform_loop environ p schedule [] self results = (self, Inr results)"
| "platform_loop environ p schedule (platform # rest) self results =
     (case platforms self platform of
        Some client \<Rightarrow>
          (if truthy schedule then
             (case bindE (parse_schedule environ schedule)
                     (ScheduledPost (uuid4 environ (uuid_draws self)) p platform) of
                Inr scheduled \<Rightarrow>
                  platform_loop environ p schedule rest
                    (self\<lparr>scheduled_posts := scheduled_posts self @ [scheduled],
                          uuid_draws := Suc (uuid_draws self)\<rparr>)
                    (dict_set results platform (scheduled_ack schedule))
              | Inl e \<Rightarrow>
                  (if is_exception e
                   then platform_loop environ p schedule rest self
                          (dict_set results platform (failure e))
                   else (self, Inl e)))
           else
             (case client_create_post client p of
                Inr result \<Rightarrow>
                  platform_loop environ p schedule rest
                    (self\<lparr>invocations := invocations self @ [(platform, p)]\<rparr>)
                    (dict_set results platform (post_result_dict result))
              | Inl e \<Rightarrow>
                  (if is_exception e
                   then platform_loop environ p schedule rest
                          (self\<lparr>invocations := invocations self @ [(platform, p)]\<rparr>)
                          (dict_set results platform (failure e))
                   else (self\<lparr>invocations := invocations self @ [(platform, p)]\<rparr>,
                         Inl e))))
      | None \<Rightarrow>
          platform_loop environ p schedule rest self
            (dict_set results platform (not_configured platform)))"

definition create_post :: "env \<Rightarrow> pyval \<Rightarrow> server \<Rightarrow> server \<times> (error + pyval)" where
  "create_post environ args self =
     (case create_post_prepare environ self args of
        Inl e \<Rightarrow> (self, Inl e)
      | Inr (p, requested, schedule) \<Rightarrow>
          (case platform_loop environ p schedule requested
                  (self\<lparr>uuid_draws := Suc (uuid_draws self)\<rparr>) [] of
             (self', Inl e) \<Rightarrow> (self', Inl e)
           | (self', Inr results) \<Rightarrow>
               (self',
                Inr (PDict
                  [(''results'', PDict results),
                   (''content'',
                    PDict [(''text'', PStr (post_text p)),
                           (''hashtags'', PList (map PStr (post_hashtags p))),
                           (''media_count'', PInt (int (length (post_media p))))])]))))"

definition analytics_entry ::
  "pyval \<Rightarrow> pyval \<Rightarrow> pyval \<Rightarrow> server \<Rightarrow> string \<Rightarrow> error + pyval" where
  \<comment> \<open>what the loop of \<open>get_analytics\<close> stores for one platform\<close>
  "analytics_entry metric_type date_range post_ids self platform =
     (case platforms self platform of
        Some client \<Rightarrow>
          (case client_get_analytics client metric_type date_range post_ids of
             Inr a \<Rightarrow> Inr (analytics_dict a)
           | Inl e \<Rightarrow>
               (if is_exception e then Inr (PDict [(''error'', PStr (str_error e))])
                else Inl e))
      | None \<Rightarrow>
          Inr (PDict [(''error'', PStr (''Platform '' @ platform @ '' not configured''))]))"

fun analytics_loop ::
  "pyval \<Rightarrow> pyval \<Rightarrow> pyval \<Rightarrow> string list \<Rightarrow> server \<Rightarrow> (string \<times> pyval) list
     \<Rightarrow> error + (string \<times> pyval) list" where
  "analytics_loop metric_type date_range post_ids [] self analytics_data = Inr analytics_data"
| "analytics_loop metric_type date_range post_ids (platform # rest) self analytics_data =
     (case analytics_entry metric_type date_range post_ids self platform of
        Inl e \<Rightarrow> Inl e
      | Inr entry \<Rightarrow>
          analytics_loop metric_type date_range post_ids rest self
            (dict_set analytics_data platform entry))"

fun sum_key :: "string \<Rightarrow> pyval list \<Rightarrow> error + int" where
  \<comment> \<open>\<^verbatim>\<open>sum(data.get(key, 0) for data in values if isinstance(data, dict) and key in data)\<close>\<close>
  "sum_key key [] = Inr 0"
| "sum_key key (PDict kvs # rest) =
     (case map_of kvs key of
        None \<Rightarrow> sum_key key rest
      | Some (PInt n) \<Rightarrow>
          (case sum_key key rest of Inl e \<Rightarrow> Inl e | Inr s \<Rightarrow> Inr (n + s))
      | Some _ \<Rightarrow> Inl (TypeError ''unsupported operand type(s) for +''))"
| "sum_key key (_ # rest) = sum_key key rest"

definition get_analytics :: "env \<Rightarrow> pyval \<Rightarrow> server \<Rightarrow> server \<times> (error + pyval)" where
  "get_analytics environ args self =
     (self,
      bindE (getitem args ''platforms'') (\<lambda>requested_value.
      bindE (py_get args ''metric_type'' (PStr ''engagement'')) (\<lambda>metric_type.
      bindE (py_get args ''date_range'' PNone) (\<lambda>date_range.
      bindE (py_get args ''post_ids'' PNone) (\<lambda>post_ids.
      bindE (as_str_list requested_value) (\<lambda>requested.
      bindE (analytics_loop metric_type date_range post_ids requested self [])
        (\<lambda>analytics_data.
      bindE (sum_key ''impressions'' (map snd analytics_data)) (\<lambda>total_impressions.
      bindE (sum_key ''engagement'' (map snd analytics_data)) (\<lambda>total_engagement.
        Inr (PDict
          [(''platforms'', PDict analytics_data),
           (''aggregated'',
            PDict [(''total_impressions'', PInt total_impressions),
                   (''total_engagement'', PInt total_engagement),
                   (''engagement_rate'',
                    if 0 < total_impressions
                    then PFloat (py_truediv total_engagement total_impressions)
                    else PInt 0)])]))))))))))"

definition lacks_key :: "string \<Rightarrow> pyval \<Rightarrow> bool" where
  \<comment> \<open>\<^verbatim>\<open>not (isinstance(data, dict) and key in data)\<close>\<close>
  "lacks_key key v = (case v of PDict kvs \<Rightarrow> map_of kvs key = None | _ \<Rightarrow> True)"

fun assign_spacing :: "env \<Rightarrow> datetime \<Rightarrow> nat \<Rightarrow> pyval list \<Rightarrow> error + pyval list" where
  \<comment> \<open>the loop that sets \<^verbatim>\<open>post_data["schedule"]\<close>; its right-hand side names \<^verbatim>\<open>timedelta\<close>\<close>
  "assign_spacing environ base_time i [] = Inr []"
| "assign_spacing environ base_time i (post_data # rest) =
     (case bindE (lookup_global server_globals ''timedelta'')
             (\<lambda>_. bindE (add_hours base_time (i * 4))
             (\<lambda>t. setitem post_data ''schedule'' (PStr (isoformat environ t)))) of
        Inl e \<Rightarrow> Inl e
      | Inr post_data' \<Rightarrow>
          (case assign_spacing environ base_time (Suc i) rest of
             Inl e \<Rightarrow> Inl e
           | Inr rest' \<Rightarrow> Inr (post_data' # rest')))"

fun schedule_loop ::
  "env \<Rightarrow> pyval list \<Rightarrow> server \<Rightarrow> pyval list \<Rightarrow> server \<times> (error + pyval list)" where
  "schedule_loop environ [] self scheduled_results = (self, Inr scheduled_results)"
| "schedule_loop environ (post_data # rest) self scheduled_results =
     (case create_post environ post_data self of
        (self', Inl e) \<Rightarrow> (self', Inl e)
      | (self', Inr result) \<Rightarrow>
          schedule_loop environ rest self' (scheduled_results @ [result]))"

definition schedule_posts :: "env \<Rightarrow> pyval \<Rightarrow> server \<Rightarrow> server \<times> (error + pyval)" where
  "schedule_posts environ args self =
     (case bindE (getitem args ''posts'') (\<lambda>posts_value.
           bindE (py_get args ''optimize_spacing'' (PBool False)) (\<lambda>optimize_spacing.
           bindE (as_list posts_value) (\<lambda>items.
             if truthy optimize_spacing \<and> 1 < length items
             then assign_spacing environ (utc_now environ) 0 items
             else Inr items))) of
        Inl e \<Rightarrow> (self, Inl e)
      | Inr items \<Rightarrow>
          (case schedule_loop environ items self [] of
             (self', Inl e) \<Rightarrow> (self', Inl e)
           | (self', Inr scheduled_results) \<Rightarrow>
               (self',
                Inr (PDict [(''scheduled_count'', PInt (int (length scheduled_results))),
                            (''results'', PList scheduled_results)]))))"

definition generate_hashtags_tool ::
  "env \<Rightarrow> pyval \<Rightarrow> server \<Rightarrow> server \<times> (error + pyval)" where
  "generate_hashtags_tool environ args self =
     (self,
      bindE (getitem args ''content'') (\<lambda>content.
      bindE (py_get args ''platform'' (PStr ''twitter'')) (\<lambda>platform.
      bindE (py_get args ''max_hashtags'' (PInt 10)) (\<lambda>max_hashtags.
      bindE (py_get args ''include_trending'' (PBool True)) (\<lambda>include_trending.
      bindE (as_str content) (\<lambda>text.
      bindE (as_str platform) (\<lambda>name.
      bindE (as_int max_hashtags) (\<lambda>max_count.
      bindE (Inr (generate_hashtags text name max_count (truthy include_trending)))
        (\<lambda>hashtags.
        Inr (PDict [(''hashtags'', PList (map PStr hashtags)),
                    (''count'', PInt (int (length hashtags))),
                    (''platform'', platform)]))))))))))"

text \<open>
  The handlers of the three tools that no result below is about are parameters: whatever
  they return or raise, \<open>handle_call_tool\<close> treats it as it treats the others.
\<close>

record tools =
  optimize_media :: "pyval \<Rightarrow> server \<Rightarrow> server \<times> (error + pyval)"
  get_trending :: "pyval \<Rightarrow> server \<Rightarrow> server \<times> (error + pyval)"
  manage_calendar :: "pyval \<Rightarrow> server \<Rightarrow> server \<times> (error + pyval)"

datatype text_content = TextContent string pyval

definition call_tool ::
  "env \<Rightarrow> tools \<Rightarrow> string \<Rightarrow> pyval \<Rightarrow> server \<Rightarrow> server \<times> (error + pyval)" where
  \<comment> \<open>the \<^verbatim>\<open>if\<close>/\<^verbatim>\<open>elif\<close> chain inside the \<^verbatim>\<open>try\<close> of \<open>handle_call_tool\<close>\<close>
  "call_tool environ handlers name arguments self =
     (if name = ''create_post'' then create_post environ arguments self
      else if name = ''get_analytics'' then get_analytics environ arguments self
      else if name = ''schedule_posts'' then schedule_posts environ arguments self
      else if name = ''generate_hashtags'' then generate_hashtags_tool environ arguments self
      else if name = ''optimize_media'' then optimize_media handlers arguments self
      else if name = ''get_trending'' then get_trending handlers arguments self
      else if name = ''manage_calendar'' then manage_calendar handlers arguments self
      else (self, Inl (ValueError (''Unknown tool: '' @ name))))"

definition error_content :: "error \<Rightarrow> string \<Rightarrow> text_content list" where
  "error_content e name =
     [TextContent ''text'' (PDict [(''error'', PStr (str_error e)), (''tool'', PStr name)])]"

text \<open>
  \<open>handle_call_tool\<close>: the dispatch and \<^verbatim>\<open>json.dumps\<close> run inside \<^verbatim>\<open>try\<close>, and the
  handler is \<^verbatim>\<open>except Exception\<close>: an exception of a class derived from \<^verbatim>\<open>Exception\<close>
  becomes the error content, and any other one leaves \<open>handle_call_tool\<close>.
\<close>

definition handle_call_tool ::
  "env \<Rightarrow> tools \<Rightarrow> string \<Rightarrow> pyval \<Rightarrow> server
     \<Rightarrow> server \<times> (error + text_content list)" where
  "handle_call_tool environ handlers name arguments self =
     (case call_tool environ handlers name arguments self of
        (self', outcome) \<Rightarrow>
          (case bindE outcome
                  (\<lambda>result. bindE (json_dumps result)
                  (\<lambda>text. Inr [TextContent ''text'' text])) of
             Inl e \<Rightarrow> (self', if is_exception e then Inr (error_content e name) else Inl e)
           | Inr content \<Rightarrow> (self', Inr content)))"

section \<open>A concrete server and environment\<close>

text \<open>
  One registered capability for LinkedIn, the \<^verbatim>\<open>LinkedInClient\<close> of
  \<^verbatim>\<open>platforms/linkedin.py\<close>: every post succeeds with the identifier
  \<^verbatim>\<open>linkedin_post_123\<close>, and the analytics are \<open>impressions = 1000\<close>,
  \<open>engagement = 50\<close>, \<open>clicks = 25\<close> (the timestamp of a result is the clock reading
  \<open>epoch\<close>). One for Twitter that accepts every post, and one whose call is cancelled
  while it is awaited. An environment whose parser knows one timestamp,
  2030-01-01T09:00 UTC, day number 741078.
\<close>

definition epoch :: datetime where
  "epoch = \<lparr>ordinal = 738000, hour = 8, minute = 0, second = 0, microsecond = 0\<rparr>"

definition linkedin_client :: capability where
  "linkedin_client =
     \<lparr>client_create_post = (\<lambda>p. Inr \<lparr>result_success = True, result_platform = ''linkedin'',
                                     result_post_id = Some ''linkedin_post_123'',
                                     result_url = Some ''https://linkedin.com/posts/123'',
                                     result_error = None, result_timestamp = epoch\<rparr>),
      client_get_analytics = (\<lambda>metric_type date_range post_ids.
         Inr \<lparr>analytics_platform = ''linkedin'',
              analytics_metrics = [(''impressions'', 1000), (''engagement'', 50), (''clicks'', 25)],
              analytics_date_range = PNone, analytics_post_ids = PNone,
              analytics_demographic_data = PNone, analytics_top_content = PNone\<rparr>),
      client_get_trending = (\<lambda>category location.
         Inr (PDict [(''trending_topics'',
                PList [PDict [(''topic'', PStr ''#Leadership''), (''volume'', PInt 5000)],
                       PDict [(''topic'', PStr ''#Innovation''), (''volume'', PInt 3000)]])]))\<rparr>"

definition cancelled_client :: capability where
  "cancelled_client =
     \<lparr>client_create_post = (\<lambda>p. Inl (CancelledError [])),
      client_get_analytics = (\<lambda>metric_type date_range post_ids. Inl (CancelledError [])),
      client_get_trending = (\<lambda>category location. Inl (CancelledError []))\<rparr>"

definition cancelled_server :: server where
  "cancelled_server =
     \<lparr>platforms = [''facebook'' \<mapsto> cancelled_client],
      scheduled_posts = [], invocations = [], uuid_draws = 0\<rparr>"

definition twitter_client :: capability where
  "twitter_client =
     \<lparr>client_create_post = (\<lambda>p. Inr \<lparr>result_success = True, result_platform = ''twitter'',
                                     result_post_id = Some ''1'', result_url = None,
                                     result_error = None, result_timestamp = epoch\<rparr>),
      client_get_analytics = (\<lambda>metric_type date_range post_ids.
         Inr \<lparr>analytics_platform = ''twitter'',
              analytics_metrics = [(''impressions'', 0), (''engagement'', 0)],
              analytics_date_range = date_range, analytics_post_ids = post_ids,
              analytics_demographic_data = PNone, analytics_top_content = PNone\<rparr>),
      client_get_trending = (\<lambda>category location. Inr (PDict []))\<rparr>"

definition example_server :: server where
  "example_server =
     \<lparr>platforms = [''linkedin'' \<mapsto> linkedin_client, ''twitter'' \<mapsto> twitter_client],
      scheduled_posts = [], invocations = [], uuid_draws = 0\<rparr>"

definition example_env :: env where
  "example_env =
     \<lparr>utc_now = epoch,
      uuid4 = (\<lambda>k. ''id-'' @ str_of_nat k),
      fromisoformat = (\<lambda>s. if s = ''2030-01-01T09:00:00+00:00''
                            then Some \<lparr>ordinal = 741078, hour = 9, minute = 0, second = 0,
                                       microsecond = 0\<rparr>
                            else None),
      isoformat = (\<lambda>d. ''2030-01-01T09:00:00+00:00''),
      optimize_image = (\<lambda>path requested. Inl (Exception ''Image optimization failed'')),
      write_videofile = (\<lambda>path requested. Inl (Exception ''no codec''))\<rparr>"

definition example_tools :: tools where
  "example_tools =
     \<lparr>optimize_media = (\<lambda>arguments self. (self, Inr (PDict []))),
      get_trending = (\<lambda>arguments self. (self, Inr (PDict []))),
      manage_calendar = (\<lambda>arguments self. (self, Inr (PDict [])))\<rparr>"

text \<open>
  Clocks and a store for the scheduling heuristic: a store in which no post has a
  timestamp yet, a clock that passes 09:00 after the first eight readings, one that passes
  midnight after the first ten, and a morning of the last day of the calendar.
\<close>

definition no_schedule :: "unit store" where
  "no_schedule = (\<lambda>r. \<lparr>other_keys = (), scheduled_time = None\<rparr>)"

definition half_past_ten :: datetime where
  "half_past_ten = \<lparr>ordinal = 738000, hour = 10, minute = 30, second = 15, microsecond = 0\<rparr>"

definition clock_across_nine :: "nat \<Rightarrow> datetime" where
  "clock_across_nine k =
     (if k < 8
      then \<lparr>ordinal = 738000, hour = 8, minute = 59, second = 59, microsecond = 0\<rparr>
      else \<lparr>ordinal = 738000, hour = 9, minute = 0, second = 1, microsecond = 0\<rparr>)"

definition before_midnight :: datetime where
  "before_midnight =
     \<lparr>ordinal = 738000, hour = 23, minute = 59, second = 59, microsecond = 0\<rparr>"

definition after_midnight :: datetime where
  "after_midnight = \<lparr>ordinal = 738001, hour = 0, minute = 0, second = 1, microsecond = 0\<rparr>"

definition clock_across_midnight :: "nat \<Rightarrow> datetime" where
  "clock_across_midnight k = (if k < 10 then before_midnight else after_midnight)"

definition last_day :: datetime where
  "last_day = \<lparr>ordinal = 3652059, hour = 10, minute = 0, second = 0, microsecond = 0\<rparr>"


section \<open>Properties of the helpers\<close>

lemma bindE_Inr [simp]: "bindE (Inr x) f = f x"
  by (simp add: bindE_def)

lemma bindE_Inl [simp]: "bindE (Inl e) f = Inl e"
  by (simp add: bindE_def)

lemma bindE_eq_Inr: "bindE m f = Inr y \<longleftrightarrow> (\<exists>x. m = Inr x \<and> f x = Inr y)"
  by (cases m) simp_all

lemma fold_fromkeys_split:
  "\<exists>zs. fold (\<lambda>k d. if k \<in> set d then d else d @ [k]) xs acc = acc @ zs
        \<and> set zs \<inter> set acc = {} \<and> set zs \<subseteq> set xs \<and> set xs \<subseteq> set acc \<union> set zs
        \<and> (distinct acc \<longrightarrow> distinct (acc @ zs))"
proof (induction xs arbitrary: acc)
  case Nil
  show ?case by simp
next
  case (Cons x xs)
  show ?case
  proof (cases "x \<in> set acc")
    case True
    from Cons.IH [of acc] obtain zs where
      "fold (\<lambda>k d. if k \<in> set d then d else d @ [k]) xs acc = acc @ zs"
      "set zs \<inter> set acc = {}" "set zs \<subseteq> set xs" "set xs \<subseteq> set acc \<union> set zs"
      "distinct acc \<longrightarrow> distinct (acc @ zs)"
      by blast
    with True show ?thesis by auto
  next
    case False
    from Cons.IH [of "acc @ [x]"] obtain zs where z:
      "fold (\<lambda>k d. if k \<in> set d then d else d @ [k]) xs (acc @ [x]) = (acc @ [x]) @ zs"
      "set zs \<inter> set (acc @ [x]) = {}" "set zs \<subseteq> set xs"
      "set xs \<subseteq> set (acc @ [x]) \<union> set zs"
      "distinct (acc @ [x]) \<longrightarrow> distinct ((acc @ [x]) @ zs)"
      by blast
    have "fold (\<lambda>k d. if k \<in> set d then d else d @ [k]) (x # xs) acc = acc @ (x # zs)"
      using False z(1) by simp
    moreover have "set (x # zs) \<inter> set acc = {}"
      using False z(2) by auto
    moreover have "set (x # zs) \<subseteq> set (x # xs)"
      using z(3) by auto
    moreover have "set (x # xs) \<subseteq> set acc \<union> set (x # zs)"
      using z(4) by auto
    moreover have "distinct acc \<longrightarrow> distinct (acc @ (x # zs))"
      using False z(2) z(5) by auto
    ultimately show ?thesis by blast
  qed
qed

lemma distinct_dict_fromkeys: "distinct (dict_fromkeys xs)"
  using fold_fromkeys_split [of xs "[]"] by (auto simp: dict_fromkeys_def)

lemma set_dict_fromkeys: "set (dict_fromkeys xs) = set xs"
  using fold_fromkeys_split [of xs "[]"] by (auto simp: dict_fromkeys_def)

lemma dict_fromkeys_append:
  "\<exists>zs. dict_fromkeys (xs @ ys) = dict_fromkeys xs @ zs \<and> set zs \<inter> set xs = {}"
proof -
  from fold_fromkeys_split [of ys "dict_fromkeys xs"] obtain zs where
    "fold (\<lambda>k d. if k \<in> set d then d else d @ [k]) ys (dict_fromkeys xs) = dict_fromkeys xs @ zs"
    "set zs \<inter> set (dict_fromkeys xs) = {}"
    by blast
  then show ?thesis
    by (auto simp: dict_fromkeys_def set_dict_fromkeys [unfolded dict_fromkeys_def])
qed

lemma slice_to_take: "\<exists>k. slice_to xs n = take k xs"
  by (auto simp: slice_to_def)

lemma length_slice_to: "0 \<le> n \<Longrightarrow> int (length (slice_to xs n)) \<le> n"
  by (simp add: slice_to_def)

lemma generate_hashtags_unfold:
  "generate_hashtags content platform max_count include_trending =
     slice_to
       (dict_fromkeys
          (existing_tags content @ take (appended_count platform) (common_words content)))
       (total_cap platform max_count)"
proof -
  have "length (common_words content) \<le> 5"
    by (simp add: common_words_def most_common_def)
  then show ?thesis
    by (simp add: generate_hashtags_def appended_count_def total_cap_def Let_def)
qed

lemma total_cap_le: "total_cap platform max_count \<le> max_count"
  by (simp add: total_cap_def)

lemma literal_before_derived:
  assumes "i < length (take k (dict_fromkeys (lits @ app)))"
    and "j < length (take k (dict_fromkeys (lits @ app)))"
    and "take k (dict_fromkeys (lits @ app)) ! i \<in> set lits"
    and "take k (dict_fromkeys (lits @ app)) ! j \<notin> set lits"
  shows "i < j"
proof -
  obtain zs where d: "dict_fromkeys (lits @ app) = dict_fromkeys lits @ zs"
    and z: "set zs \<inter> set lits = {}"
    using dict_fromkeys_append [of lits app] by blast
  let ?L = "dict_fromkeys lits"
  note a = assms [unfolded d]
  have ik: "i < k" and i: "i < length (?L @ zs)"
    using a(1) by simp_all
  have jk: "j < k" and j: "j < length (?L @ zs)"
    using a(2) by simp_all
  have ti: "take k (?L @ zs) ! i = (?L @ zs) ! i"
    using ik by (simp only: nth_take)
  have tj: "take k (?L @ zs) ! j = (?L @ zs) ! j"
    using jk by (simp only: nth_take)
  have ei: "(?L @ zs) ! i \<in> set lits"
    using a(3) unfolding ti .
  have ej: "(?L @ zs) ! j \<notin> set lits"
    using a(4) unfolding tj .
  have "i < length ?L"
  proof (rule ccontr)
    assume "\<not> i < length ?L"
    then have "(?L @ zs) ! i = zs ! (i - length ?L)" "i - length ?L < length zs"
      using i by (simp_all add: nth_append)
    then have "(?L @ zs) ! i \<in> set zs" by simp
    with ei z show False by blast
  qed
  moreover have "length ?L \<le> j"
  proof (rule ccontr)
    assume "\<not> length ?L \<le> j"
    then have "(?L @ zs) ! j = ?L ! j" "j < length ?L"
      by (simp_all add: nth_append)
    then have "(?L @ zs) ! j \<in> set ?L" by simp
    with ej show False by (simp add: set_dict_fromkeys)
  qed
  ultimately show ?thesis by simp
qed

section \<open>The tokenizer and the ranking, by position and by count\<close>





























lemma common_words_short: "length (common_words content) \<le> 5"
  by (simp add: common_words_def most_common_def)



section \<open>Hashtag generator: results\<close>

text \<open>
  C5 (as stated): for every text, platform and \<open>max_hashtags\<close> value the generator returns
  at most \<open>max_hashtags\<close> entries. The slice \<^verbatim>\<open>[:max_count]\<close> with a negative
  \<open>max_count\<close> drops entries from the end instead, so the bound fails there: two literal
  tags and \<open>max_hashtags = -1\<close> give one entry.
\<close>

theorem generate_hashtags_negative_max_counterexample:
  "generate_hashtags ''#a #b'' ''facebook'' (- 1) True = [''a'']
   \<and> \<not> int (length (generate_hashtags ''#a #b'' ''facebook'' (- 1) True)) \<le> - 1"
  by code_simp

text \<open>
  C5 (amended): for every text \<open>T\<close>, platform and \<open>max_hashtags \<ge> 0\<close>,
  \<open>generate_hashtags\<close> returns at most \<open>max_hashtags\<close> entries, pairwise distinct under
  case-sensitive comparison, and every returned tag that is a literal \<^verbatim>\<open>#tag\<close> of \<open>T\<close>
  stands before every returned tag that is not (the frequency-derived ones).
\<close>

theorem generate_hashtags_bounded_distinct_ordered:
  assumes "0 \<le> max_hashtags"
  shows "int (length (generate_hashtags T platform max_hashtags tr)) \<le> max_hashtags
    \<and> distinct (generate_hashtags T platform max_hashtags tr)
    \<and> (\<forall>i j. i < length (generate_hashtags T platform max_hashtags tr)
           \<and> j < length (generate_hashtags T platform max_hashtags tr)
           \<and> generate_hashtags T platform max_hashtags tr ! i \<in> set (existing_tags T)
           \<and> generate_hashtags T platform max_hashtags tr ! j \<notin> set (existing_tags T)
           \<longrightarrow> i < j)"
proof -
  let ?D = "dict_fromkeys
              (existing_tags T @ take (appended_count platform) (common_words T))"
  have g: "generate_hashtags T platform max_hashtags tr
             = slice_to ?D (total_cap platform max_hashtags)"
    by (rule generate_hashtags_unfold)
  obtain k where k: "slice_to ?D (total_cap platform max_hashtags) = take k ?D"
    using slice_to_take by blast
  have cap: "0 \<le> total_cap platform max_hashtags"
    using assms by (simp add: total_cap_def)
  have "int (length (slice_to ?D (total_cap platform max_hashtags)))
          \<le> total_cap platform max_hashtags"
    using cap by (rule length_slice_to)
  then have len: "int (length (generate_hashtags T platform max_hashtags tr)) \<le> max_hashtags"
    using total_cap_le [of platform max_hashtags] by (simp only: g)
  have dis: "distinct (generate_hashtags T platform max_hashtags tr)"
    by (simp only: g k distinct_take distinct_dict_fromkeys)
  have ord: "\<forall>i j. i < length (generate_hashtags T platform max_hashtags tr)
           \<and> j < length (generate_hashtags T platform max_hashtags tr)
           \<and> generate_hashtags T platform max_hashtags tr ! i \<in> set (existing_tags T)
           \<and> generate_hashtags T platform max_hashtags tr ! j \<notin> set (existing_tags T)
           \<longrightarrow> i < j"
    unfolding g k using literal_before_derived by blast
  from len dis ord show ?thesis by blast
qed

theorem generate_hashtags_bounded_distinct_ordered_witness:
  "(0::int) \<le> 3
   \<and> generate_hashtags ''Launch #AI tools tools'' ''twitter'' 3 True
       = [''AI'', ''tools'', ''launch'']
   \<and> existing_tags ''Launch #AI tools tools'' = [''AI'']
   \<and> int (length (generate_hashtags ''Launch #AI tools tools'' ''twitter'' 3 True)) \<le> 3
   \<and> distinct (generate_hashtags ''Launch #AI tools tools'' ''twitter'' 3 True)
   \<and> generate_hashtags ''Launch #AI tools tools'' ''twitter'' 3 True ! 0
        \<in> set (existing_tags ''Launch #AI tools tools'')
   \<and> generate_hashtags ''Launch #AI tools tools'' ''twitter'' 3 True ! 1
        \<notin> set (existing_tags ''Launch #AI tools tools'')"
proof -
  have h: "(0::int) \<le> 3" by simp
  have v: "generate_hashtags ''Launch #AI tools tools'' ''twitter'' 3 True
             = [''AI'', ''tools'', ''launch'']"
    by code_simp
  have e: "existing_tags ''Launch #AI tools tools'' = [''AI'']"
    by code_simp
  have m: "[''AI'', ''tools'', ''launch''] ! 0 \<in> set [''AI'']"
    "[''AI'', ''tools'', ''launch''] ! 1 \<notin> set [''AI'']"
    by simp_all
  from generate_hashtags_bounded_distinct_ordered
         [OF h, of "''Launch #AI tools tools''" "''twitter''" True]
  show ?thesis using h m unfolding v e by blast
qed




section \<open>Scheduling heuristic: the loops\<close>

lemma shift_days_zero: "shift_days t 0 = t"
  by (simp add: shift_days_def)

lemma hour_shift_days: "hour (shift_days t n) = hour t"
  by (simp add: shift_days_def)

lemma ordinal_shift_days: "ordinal (shift_days t n) = ordinal t + n"
  by (simp add: shift_days_def)

lemma ordinal_at_hour: "ordinal (at_hour d h) = ordinal d"
  by (simp add: at_hour_def)

lemma hour_rolled: "hour (rolled r1 r2 h) = nat h"
  by (simp add: rolled_def at_hour_def shift_days_def)

lemma time_rolled:
  "minute (rolled r1 r2 h) = 0" "second (rolled r1 r2 h) = 0" "microsecond (rolled r1 r2 h) = 0"
  by (simp_all add: rolled_def at_hour_def shift_days_def)

lemma ordinal_rolled:
  "ordinal (rolled r1 r2 h) = ordinal r1 + (if dt_less (at_hour r1 h) r2 then 1 else 0)"
  by (simp add: rolled_def at_hour_def shift_days_def)

lemma ordinal_rolled_bounds:
  "ordinal r1 \<le> ordinal (rolled r1 r2 h)" "ordinal (rolled r1 r2 h) \<le> ordinal r1 + 1"
  by (simp_all add: ordinal_rolled)

text \<open>The order of the datetimes: \<open>\<not> dt_less b a\<close> reads \<open>a \<le> b\<close>.\<close>

lemma dt_less_ordinal: "ordinal a < ordinal b \<Longrightarrow> dt_less a b"
  by (simp add: dt_less_def)

lemma not_dt_less_ordinal: "\<not> dt_less b a \<Longrightarrow> ordinal a \<le> ordinal b"
  by (rule ccontr) (simp add: dt_less_def)

lemma dt_less_trans: "dt_less a b \<Longrightarrow> dt_less b c \<Longrightarrow> dt_less a c"
  unfolding dt_less_def by (elim disjE conjE) simp_all

lemma dt_less_total: "dt_less a b \<or> a = b \<or> dt_less b a"
  unfolding dt_less_def by (cases a, cases b) auto

lemma dt_le_less_trans:
  assumes "\<not> dt_less b a" and "dt_less b c"
  shows "dt_less a c"
proof -
  from dt_less_total [of a b] assms(1) have "dt_less a b \<or> a = b" by blast
  then show ?thesis
    using assms(2) dt_less_trans by blast
qed

lemma dt_less_le_trans:
  assumes "dt_less a b" and "\<not> dt_less c b"
  shows "dt_less a c"
proof -
  from dt_less_total [of b c] assms(2) have "dt_less b c \<or> b = c" by blast
  then show ?thesis
    using assms(1) dt_less_trans by blast
qed

lemma dt_le_trans:
  assumes "\<not> dt_less b a" and "\<not> dt_less c b"
  shows "\<not> dt_less c a"
  using assms dt_less_le_trans by blast

lemma rolled_not_before:
  assumes "\<not> dt_less r1 now" and "\<not> dt_less r2 now"
  shows "\<not> dt_less (rolled r1 r2 h) now"
proof (cases "dt_less (at_hour r1 h) r2")
  case True
  have "ordinal now \<le> ordinal r1"
    using assms(1) by (rule not_dt_less_ordinal)
  then have "ordinal now < ordinal (rolled r1 r2 h)"
    using True by (simp add: ordinal_rolled)
  then show ?thesis
    by (simp add: dt_less_def)
next
  case False
  then have "rolled r1 r2 h = at_hour r1 h"
    by (simp add: rolled_def)
  moreover have "\<not> dt_less (at_hour r1 h) now"
    using assms(2) False by (rule dt_le_trans)
  ultimately show ?thesis by simp
qed

lemma shift_days_not_before:
  assumes "\<not> dt_less t now" and "0 \<le> n"
  shows "\<not> dt_less (shift_days t n) now"
proof (cases "n = 0")
  case True
  with assms(1) show ?thesis by (simp add: shift_days_zero)
next
  case False
  with assms(2) have "0 < n" by simp
  moreover have "ordinal now \<le> ordinal t"
    using assms(1) by (rule not_dt_less_ordinal)
  ultimately have "ordinal now < ordinal (shift_days t n)"
    by (simp add: ordinal_shift_days)
  then show ?thesis
    by (simp add: dt_less_def)
qed

lemma replace_hour_at_hour:
  assumes "0 \<le> h" and "h \<le> 23"
  shows "replace_hour d h = Inr (at_hour d h)"
  using assms by (simp add: replace_hour_def at_hour_def)

lemma add_days_in_range:
  assumes "min_ordinal \<le> ordinal t + n" and "ordinal t + n \<le> max_ordinal"
  shows "add_days t n = Inr (shift_days t n)"
  using assms by (simp add: add_days_def)

lemma add_days_overflow:
  assumes "max_ordinal < ordinal t + n"
  shows "add_days t n = Inl (OverflowError ''date value out of range'')"
  using assms by (simp add: add_days_def)

lemma roll_step:
  assumes "min_ordinal \<le> ordinal r1" and "ordinal (rolled r1 r2 h) \<le> max_ordinal"
  shows "(if dt_less (at_hour r1 h) r2 then add_days (at_hour r1 h) 1 else Inr (at_hour r1 h))
           = Inr (rolled r1 r2 h)"
proof (cases "dt_less (at_hour r1 h) r2")
  case True
  have "min_ordinal \<le> ordinal (at_hour r1 h) + 1" "ordinal (at_hour r1 h) + 1 \<le> max_ordinal"
    using assms True by (simp_all add: ordinal_rolled ordinal_at_hour)
  from add_days_in_range [OF this] True show ?thesis
    by (simp add: rolled_def)
next
  case False
  then show ?thesis by (simp add: rolled_def)
qed

lemma peak_index: "peak_times ! (i mod length peak_times) = [9, 12, 17, 19] ! (i mod 4)"
  by (simp add: peak_times_def)

lemma peak_hour_cases:
  "[9, 12, 17, 19] ! (i mod 4) \<in> {9, 12, 17, 19 :: int}"
proof -
  have "i mod 4 = 0 \<or> i mod 4 = 1 \<or> i mod 4 = 2 \<or> i mod 4 = 3"
    by presburger
  then show ?thesis by auto
qed

lemma ordinal_peak_slot:
  "ordinal (peak_slot clock i)
     = ordinal (rolled (clock (2 * i)) (clock (2 * i + 1)) ([9, 12, 17, 19] ! (i mod 4)))
       + int (i div 4)"
  by (simp add: peak_slot_def ordinal_shift_days)

lemma peak_step:
  assumes "min_ordinal \<le> ordinal (clock (2 * i))"
    and "ordinal (peak_slot clock i) \<le> max_ordinal"
  shows "bindE (replace_hour (clock (2 * i)) (peak_times ! (i mod length peak_times)))
           (\<lambda>t. bindE (if dt_less t (clock (2 * i + 1)) then add_days t 1 else Inr t)
           (\<lambda>t'. if length peak_times \<le> i
                  then add_days t' (int (i div length peak_times)) else Inr t'))
         = Inr (peak_slot clock i)"
proof -
  let ?h = "[9, 12, 17, 19] ! (i mod 4) :: int"
  let ?r = "rolled (clock (2 * i)) (clock (2 * i + 1)) ?h"
  have range: "0 \<le> ?h" "?h \<le> 23"
    using peak_hour_cases [of i] by auto
  have r: "replace_hour (clock (2 * i)) (peak_times ! (i mod length peak_times))
             = Inr (at_hour (clock (2 * i)) ?h)"
    using replace_hour_at_hour [OF range] by (simp only: peak_index)
  have top: "ordinal ?r + int (i div 4) \<le> max_ordinal"
    using assms(2) by (simp only: ordinal_peak_slot)
  then have "ordinal ?r \<le> max_ordinal" by simp
  from roll_step [OF assms(1) this]
  have roll: "(if dt_less (at_hour (clock (2 * i)) ?h) (clock (2 * i + 1))
               then add_days (at_hour (clock (2 * i)) ?h) 1
               else Inr (at_hour (clock (2 * i)) ?h)) = Inr ?r" .
  have low: "min_ordinal \<le> ordinal ?r + int (i div 4)"
    using assms(1) ordinal_rolled_bounds(1) [of "clock (2 * i)" "clock (2 * i + 1)" ?h]
    by simp
  have days: "(if length peak_times \<le> i
               then add_days ?r (int (i div length peak_times)) else Inr ?r)
              = Inr (peak_slot clock i)"
  proof (cases "4 \<le> i")
    case True
    with add_days_in_range [OF low top] show ?thesis
      by (simp add: peak_slot_def peak_times_def)
  next
    case False
    then have "i div 4 = 0" by simp
    with False show ?thesis
      by (simp add: peak_slot_def peak_times_def shift_days_zero)
  qed
  show ?thesis
    by (simp only: r bindE_Inr roll days)
qed

lemma peak_times_loop_run:
  "\<forall>j. i \<le> j \<and> j < i + length posts
        \<longrightarrow> min_ordinal \<le> ordinal (clock (2 * j))
            \<and> ordinal (peak_slot clock j) \<le> max_ordinal
   \<Longrightarrow> peak_times_loop clock i posts st acc
     = (assign_times (peak_slot clock) i posts st, Inr (acc @ posts))"
proof (induction posts arbitrary: i st acc)
  case Nil
  show ?case by simp
next
  case (Cons post posts)
  have here: "min_ordinal \<le> ordinal (clock (2 * i))"
    "ordinal (peak_slot clock i) \<le> max_ordinal"
    using Cons.prems by simp_all
  have rest: "\<forall>j. Suc i \<le> j \<and> j < Suc i + length posts
        \<longrightarrow> min_ordinal \<le> ordinal (clock (2 * j))
            \<and> ordinal (peak_slot clock j) \<le> max_ordinal"
    using Cons.prems by simp
  note ih = Cons.IH [OF rest]
  show ?case
    by (simp only: peak_times_loop.simps peak_step [OF here] sum.case ih assign_times.simps
          append_Cons append_Nil append_assoc)
qed

lemma even_step:
  assumes "0 \<le> h" and "h \<le> 23"
    and "min_ordinal \<le> ordinal r1" and "ordinal (rolled r1 r2 h) \<le> max_ordinal"
  shows "bindE (replace_hour r1 h) (\<lambda>t. if dt_less t r2 then add_days t 1 else Inr t)
           = Inr (rolled r1 r2 h)"
  by (simp only: replace_hour_at_hour [OF assms(1,2)] bindE_Inr roll_step [OF assms(3,4)])

lemma even_spacing_loop_run:
  "\<forall>j. i \<le> j \<and> j < i + length posts
        \<longrightarrow> 0 \<le> start_hour + py_int (py_mul_int_float (int j) interval)
            \<and> start_hour + py_int (py_mul_int_float (int j) interval) \<le> 23
            \<and> min_ordinal \<le> ordinal (clock (2 * j))
            \<and> ordinal (rolled (clock (2 * j)) (clock (2 * j + 1))
                         (start_hour + py_int (py_mul_int_float (int j) interval)))
                \<le> max_ordinal
   \<Longrightarrow> even_spacing_loop clock interval i posts st acc
     = (assign_times
          (\<lambda>j. rolled (clock (2 * j)) (clock (2 * j + 1))
                  (start_hour + py_int (py_mul_int_float (int j) interval)))
          i posts st,
        Inr (acc @ posts))"
proof (induction posts arbitrary: i st acc)
  case Nil
  show ?case by simp
next
  case (Cons post posts)
  let ?h = "start_hour + py_int (py_mul_int_float (int i) interval)"
  have here: "0 \<le> ?h" "?h \<le> 23" "min_ordinal \<le> ordinal (clock (2 * i))"
    "ordinal (rolled (clock (2 * i)) (clock (2 * i + 1)) ?h) \<le> max_ordinal"
    using Cons.prems by simp_all
  have rest: "\<forall>j. Suc i \<le> j \<and> j < Suc i + length posts
        \<longrightarrow> 0 \<le> start_hour + py_int (py_mul_int_float (int j) interval)
            \<and> start_hour + py_int (py_mul_int_float (int j) interval) \<le> 23
            \<and> min_ordinal \<le> ordinal (clock (2 * j))
            \<and> ordinal (rolled (clock (2 * j)) (clock (2 * j + 1))
                         (start_hour + py_int (py_mul_int_float (int j) interval)))
                \<le> max_ordinal"
    using Cons.prems by simp
  note ih = Cons.IH [OF rest]
  show ?case
    by (simp only: even_spacing_loop.simps even_step [OF here] sum.case ih
          assign_times.simps append_Cons append_Nil append_assoc)
qed

lemma assign_times_other:
  "r \<notin> set posts \<Longrightarrow> assign_times f i posts st r = st r"
  by (induction posts arbitrary: i st) (auto simp: set_scheduled_time_def)

lemma assign_times_nth:
  assumes "distinct posts" and "k < length posts"
  shows "scheduled_time (assign_times f i posts st (posts ! k)) = Some (f (i + k))"
  using assms
proof (induction posts arbitrary: i st k)
  case Nil
  then show ?case by simp
next
  case (Cons post posts)
  show ?case
  proof (cases k)
    case 0
    have "post \<notin> set posts" using Cons.prems(1) by simp
    then have "assign_times f (Suc i) posts (set_scheduled_time st post (f i)) post
                 = set_scheduled_time st post (f i) post"
      by (rule assign_times_other)
    then show ?thesis
      using 0 by (simp add: set_scheduled_time_def)
  next
    case (Suc k')
    have "distinct posts" "k' < length posts"
      using Cons.prems Suc by simp_all
    from Cons.IH [OF this, of "Suc i" "set_scheduled_time st post (f i)"]
    show ?thesis using Suc by simp
  qed
qed

section \<open>Scheduling heuristic: results\<close>

lemma hour_peak_slot: "int (hour (peak_slot clock i)) = [9, 12, 17, 19] ! (i mod 4)"
proof -
  have "0 \<le> ([9, 12, 17, 19] ! (i mod 4) :: int)"
    using peak_hour_cases [of i] by auto
  then show ?thesis
    by (simp add: peak_slot_def hour_shift_days hour_rolled)
qed

lemma time_peak_slot:
  "minute (peak_slot clock i) = 0 \<and> second (peak_slot clock i) = 0
   \<and> microsecond (peak_slot clock i) = 0"
  by (simp add: peak_slot_def shift_days_def time_rolled)

lemma peak_slot_not_before:
  assumes "\<not> dt_less (clock (2 * i)) now" and "\<not> dt_less (clock (2 * i + 1)) now"
  shows "\<not> dt_less (peak_slot clock i) now"
  unfolding peak_slot_def
  by (rule shift_days_not_before [OF rolled_not_before [OF assms]]) simp

lemma ordinal_peak_slot_le:
  "ordinal (peak_slot clock i) \<le> ordinal (clock (2 * i)) + 1 + int (i div 4)"
  using ordinal_rolled_bounds(2) [of "clock (2 * i)" "clock (2 * i + 1)"]
  by (simp add: ordinal_peak_slot)

lemma at_hour_same_day: "ordinal a = ordinal b \<Longrightarrow> at_hour a h = at_hour b h"
  by (simp add: at_hour_def)

lemma rolled_mono:
  assumes "\<not> dt_less b1 a1" and "\<not> dt_less b2 a2"
  shows "ordinal (rolled a1 a2 h) \<le> ordinal (rolled b1 b2 h)"
proof (cases "ordinal a1 < ordinal b1")
  case True
  have "ordinal (rolled a1 a2 h) \<le> ordinal a1 + 1"
    by (rule ordinal_rolled_bounds)
  moreover have "ordinal b1 \<le> ordinal (rolled b1 b2 h)"
    by (rule ordinal_rolled_bounds)
  ultimately show ?thesis using True by simp
next
  case False
  moreover have "ordinal a1 \<le> ordinal b1"
    using assms(1) by (rule not_dt_less_ordinal)
  ultimately have same: "ordinal a1 = ordinal b1" by simp
  then have at: "at_hour a1 h = at_hour b1 h" by (rule at_hour_same_day)
  have "dt_less (at_hour b1 h) b2" if "dt_less (at_hour a1 h) a2"
    using that assms(2) unfolding at by (rule dt_less_le_trans)
  then show ?thesis
    using same by (auto simp: ordinal_rolled)
qed

lemma rolled_same:
  assumes "ordinal b1 = ordinal a1"
    and "dt_less (at_hour b1 h) b2 = dt_less (at_hour a1 h) a2"
  shows "rolled b1 b2 h = rolled a1 a2 h"
  using assms at_hour_same_day [OF assms(1), of h] by (simp add: rolled_def)

lemma peak_times_run:
  assumes "\<forall>k<2 * length posts.
             min_ordinal \<le> ordinal (clock k)
             \<and> ordinal (clock k) + 1 + int ((length posts - 1) div 4) \<le> max_ordinal"
  shows "schedule_content_calendar clock st posts ''peak_times''
           = (assign_times (peak_slot clock) 0 posts st, Inr posts)"
proof -
  have "\<forall>j. 0 \<le> j \<and> j < 0 + length posts
        \<longrightarrow> min_ordinal \<le> ordinal (clock (2 * j))
            \<and> ordinal (peak_slot clock j) \<le> max_ordinal"
  proof (intro allI impI)
    fix j
    assume "0 \<le> j \<and> j < 0 + length posts"
    then have j: "j < length posts" by simp
    then have "2 * j < 2 * length posts" by simp
    with assms have c: "min_ordinal \<le> ordinal (clock (2 * j))"
      "ordinal (clock (2 * j)) + 1 + int ((length posts - 1) div 4) \<le> max_ordinal"
      by blast+
    have "j div 4 \<le> (length posts - 1) div 4"
      using j by (intro div_le_mono) simp
    then have "int (j div 4) \<le> int ((length posts - 1) div 4)" by simp
    with c(2) ordinal_peak_slot_le [of clock j]
    have "ordinal (peak_slot clock j) \<le> max_ordinal" by linarith
    with c(1) show "min_ordinal \<le> ordinal (clock (2 * j))
            \<and> ordinal (peak_slot clock j) \<le> max_ordinal"
      by blast
  qed
  from peak_times_loop_run [OF this, of st "[]"]
  show ?thesis by (simp add: schedule_content_calendar_def)
qed

text \<open>
  C7 (as stated): at every invocation time the fifth timestamp is exactly one day after
  the first. The source reads the clock twice for each post, and the call returns only
  when no date passes 9999-12-31. With a clock that passes 09:00 while the call runs
  (08:59:59 for the first four posts, 09:00:01 for the fifth), the first post is
  scheduled today at 09:00 and the fifth two days later; on the last day of the
  calendar, after 09:00, the call raises \<^verbatim>\<open>OverflowError\<close>.
\<close>

theorem peak_times_moving_clock_counterexample:
  "snd (schedule_content_calendar clock_across_nine no_schedule [0, 1, 2, 3, 4] ''peak_times'')
     = Inr [0, 1, 2, 3, 4]
   \<and> scheduled_time
        (fst (schedule_content_calendar clock_across_nine no_schedule [0, 1, 2, 3, 4]
                ''peak_times'') 0)
       = Some \<lparr>ordinal = 738000, hour = 9, minute = 0, second = 0, microsecond = 0\<rparr>
   \<and> scheduled_time
        (fst (schedule_content_calendar clock_across_nine no_schedule [0, 1, 2, 3, 4]
                ''peak_times'') 4)
       = Some \<lparr>ordinal = 738002, hour = 9, minute = 0, second = 0, microsecond = 0\<rparr>
   \<and> snd (schedule_content_calendar (\<lambda>k. last_day) no_schedule [0, 1, 2, 3, 4]
            ''peak_times'')
       = Inl (OverflowError ''date value out of range'')"
proof -
  let ?posts = "[0, 1, 2, 3, 4 :: nat]"
  have d: "distinct ?posts" and l: "0 < length ?posts" "4 < length ?posts" by simp_all
  have "\<forall>k<2 * length ?posts.
          min_ordinal \<le> ordinal (clock_across_nine k)
          \<and> ordinal (clock_across_nine k) + 1 + int ((length ?posts - 1) div 4) \<le> max_ordinal"
    by (simp add: clock_across_nine_def min_ordinal_def max_ordinal_def)
  from peak_times_run [OF this, of no_schedule]
  have run: "schedule_content_calendar clock_across_nine no_schedule ?posts ''peak_times''
               = (assign_times (peak_slot clock_across_nine) 0 ?posts no_schedule, Inr ?posts)" .
  have s0: "peak_slot clock_across_nine 0
              = \<lparr>ordinal = 738000, hour = 9, minute = 0, second = 0, microsecond = 0\<rparr>"
    by (simp add: peak_slot_def rolled_def at_hour_def shift_days_def dt_less_def
          clock_across_nine_def)
  have s4: "peak_slot clock_across_nine 4
              = \<lparr>ordinal = 738002, hour = 9, minute = 0, second = 0, microsecond = 0\<rparr>"
    by (simp add: peak_slot_def rolled_def at_hour_def shift_days_def dt_less_def
          clock_across_nine_def)
  have "scheduled_time
        (fst (schedule_content_calendar clock_across_nine no_schedule ?posts ''peak_times'')
           (?posts ! 0))
       = Some (peak_slot clock_across_nine (0 + 0))"
    unfolding run fst_conv by (rule assign_times_nth [OF d l(1)])
  then have r0: "scheduled_time
        (fst (schedule_content_calendar clock_across_nine no_schedule ?posts ''peak_times'') 0)
       = Some \<lparr>ordinal = 738000, hour = 9, minute = 0, second = 0, microsecond = 0\<rparr>"
    by (simp add: s0)
  have "scheduled_time
        (fst (schedule_content_calendar clock_across_nine no_schedule ?posts ''peak_times'')
           (?posts ! 4))
       = Some (peak_slot clock_across_nine (0 + 4))"
    unfolding run fst_conv by (rule assign_times_nth [OF d l(2)])
  then have r4: "scheduled_time
        (fst (schedule_content_calendar clock_across_nine no_schedule ?posts ''peak_times'') 4)
       = Some \<lparr>ordinal = 738002, hour = 9, minute = 0, second = 0, microsecond = 0\<rparr>"
    by (simp add: s4)
  have over: "snd (schedule_content_calendar (\<lambda>k. last_day) no_schedule ?posts ''peak_times'')
       = Inl (OverflowError ''date value out of range'')"
    by (simp add: schedule_content_calendar_def peak_times_def replace_hour_def bindE_def
          dt_less_def add_days_def last_day_def min_ordinal_def max_ordinal_def)
  from run r0 r4 over show ?thesis by simp
qed

text \<open>
  C7 (amended): with the strategy \<^verbatim>\<open>peak_times\<close> and five posts (five different
  dictionaries), invoked at \<open>now\<close> with a clock that does not run backwards and stays
  two days or more before 9999-12-31, the call returns the five posts, and post \<open>i\<close>
  carries \<open>peak_slot clock i\<close>: the hour \<open>[9, 12, 17, 19] ! (i mod 4)\<close> sharp on the
  day of the reading taken for that post, moved forward one day when that is before the
  next reading, plus \<open>i div 4\<close> days. Its hour is one of 9, 12, 17, 19 and it is not
  before \<open>now\<close>. The fifth timestamp has the hour of the first and lies one day or more
  after it; exactly one day when the two posts are handled on the same day and on the
  same side of 09:00, as they are when the clock reads \<open>now\<close> throughout the call.
\<close>

theorem peak_times_five_posts:
  assumes "length posts = 5" and "distinct posts"
    and "\<forall>j k. j \<le> k \<and> k < 10 \<longrightarrow> \<not> dt_less (clock k) (clock j)"
    and "\<not> dt_less (clock 0) now"
    and "\<forall>k<10. min_ordinal \<le> ordinal (clock k) \<and> ordinal (clock k) + 2 \<le> max_ordinal"
  shows "snd (schedule_content_calendar clock st posts ''peak_times'') = Inr posts
    \<and> (\<forall>i<5. scheduled_time
                (fst (schedule_content_calendar clock st posts ''peak_times'') (posts ! i))
                = Some (peak_slot clock i)
            \<and> int (hour (peak_slot clock i)) = [9, 12, 17, 19] ! (i mod 4)
            \<and> int (hour (peak_slot clock i)) \<in> {9, 12, 17, 19}
            \<and> minute (peak_slot clock i) = 0 \<and> second (peak_slot clock i) = 0
            \<and> microsecond (peak_slot clock i) = 0
            \<and> \<not> dt_less (peak_slot clock i) now)
    \<and> hour (peak_slot clock 4) = hour (peak_slot clock 0)
    \<and> ordinal (peak_slot clock 0) + 1 \<le> ordinal (peak_slot clock 4)
    \<and> (ordinal (clock 8) = ordinal (clock 0)
         \<and> dt_less (at_hour (clock 8) 9) (clock 9) = dt_less (at_hour (clock 0) 9) (clock 1)
       \<longrightarrow> peak_slot clock 4 = shift_days (peak_slot clock 0) 1)
    \<and> peak_slot (\<lambda>k. now) 4 = shift_days (peak_slot (\<lambda>k. now) 0) 1"
proof -
  have "\<forall>k<2 * length posts.
          min_ordinal \<le> ordinal (clock k)
          \<and> ordinal (clock k) + 1 + int ((length posts - 1) div 4) \<le> max_ordinal"
  proof (intro allI impI)
    fix k
    assume "k < 2 * length posts"
    then have "k < 10" using assms(1) by simp
    with assms(5) have "min_ordinal \<le> ordinal (clock k)"
      "ordinal (clock k) + 2 \<le> max_ordinal"
      by blast+
    then show "min_ordinal \<le> ordinal (clock k)
          \<and> ordinal (clock k) + 1 + int ((length posts - 1) div 4) \<le> max_ordinal"
      using assms(1) by simp
  qed
  from peak_times_run [OF this, of st]
  have run: "schedule_content_calendar clock st posts ''peak_times''
               = (assign_times (peak_slot clock) 0 posts st, Inr posts)" .
  have later: "\<not> dt_less (clock k) now" if "k < 10" for k
  proof -
    have "\<not> dt_less (clock k) (clock 0)"
      using assms(3) that by simp
    with assms(4) show ?thesis by (rule dt_le_trans)
  qed
  have each: "\<forall>i<5. scheduled_time
                (fst (schedule_content_calendar clock st posts ''peak_times'') (posts ! i))
                = Some (peak_slot clock i)
            \<and> int (hour (peak_slot clock i)) = [9, 12, 17, 19] ! (i mod 4)
            \<and> int (hour (peak_slot clock i)) \<in> {9, 12, 17, 19}
            \<and> minute (peak_slot clock i) = 0 \<and> second (peak_slot clock i) = 0
            \<and> microsecond (peak_slot clock i) = 0
            \<and> \<not> dt_less (peak_slot clock i) now"
  proof (intro allI impI)
    fix i :: nat
    assume i: "i < 5"
    then have "i < length posts" using assms(1) by simp
    from assign_times_nth [OF assms(2) this, of "peak_slot clock" 0 st]
    have "scheduled_time
            (fst (schedule_content_calendar clock st posts ''peak_times'') (posts ! i))
            = Some (peak_slot clock i)"
      by (simp add: run)
    moreover have "int (hour (peak_slot clock i)) \<in> {9, 12, 17, 19}"
      using peak_hour_cases [of i] by (simp only: hour_peak_slot)
    moreover have "\<not> dt_less (peak_slot clock i) now"
      using i by (intro peak_slot_not_before later) simp_all
    ultimately show "scheduled_time
                (fst (schedule_content_calendar clock st posts ''peak_times'') (posts ! i))
                = Some (peak_slot clock i)
            \<and> int (hour (peak_slot clock i)) = [9, 12, 17, 19] ! (i mod 4)
            \<and> int (hour (peak_slot clock i)) \<in> {9, 12, 17, 19}
            \<and> minute (peak_slot clock i) = 0 \<and> second (peak_slot clock i) = 0
            \<and> microsecond (peak_slot clock i) = 0
            \<and> \<not> dt_less (peak_slot clock i) now"
      using hour_peak_slot [of clock i] time_peak_slot [of clock i] by blast
  qed
  have same: "hour (peak_slot clock 4) = hour (peak_slot clock 0)"
    by (simp add: peak_slot_def hour_shift_days hour_rolled)
  have p0: "peak_slot clock 0 = rolled (clock 0) (clock 1) 9" for clock
    by (simp add: peak_slot_def shift_days_zero)
  have p4: "peak_slot clock 4 = shift_days (rolled (clock 8) (clock 9) 9) 1" for clock
    by (simp add: peak_slot_def)
  have "\<not> dt_less (clock 8) (clock 0)" "\<not> dt_less (clock 9) (clock 1)"
    using assms(3) by simp_all
  from rolled_mono [OF this, of 9]
  have day: "ordinal (peak_slot clock 0) + 1 \<le> ordinal (peak_slot clock 4)"
    by (simp add: p0 p4 ordinal_shift_days)
  have exact: "ordinal (clock 8) = ordinal (clock 0)
         \<and> dt_less (at_hour (clock 8) 9) (clock 9) = dt_less (at_hour (clock 0) 9) (clock 1)
       \<longrightarrow> peak_slot clock 4 = shift_days (peak_slot clock 0) 1"
    using rolled_same [of "clock 8" "clock 0" 9 "clock 9" "clock 1"]
    by (simp add: p0 p4)
  have const: "peak_slot (\<lambda>k. now) 4 = shift_days (peak_slot (\<lambda>k. now) 0) 1"
    by (simp add: p0 p4)
  have ret: "snd (schedule_content_calendar clock st posts ''peak_times'') = Inr posts"
    by (simp add: run)
  from ret each same day exact const show ?thesis by blast
qed

theorem peak_times_five_posts_witness:
  "length [0, 1, 2, 3, 4 :: nat] = 5 \<and> distinct [0, 1, 2, 3, 4 :: nat]
   \<and> \<not> dt_less half_past_ten half_past_ten
   \<and> min_ordinal \<le> ordinal half_past_ten \<and> ordinal half_past_ten + 2 \<le> max_ordinal
   \<and> snd (schedule_content_calendar (\<lambda>k. half_past_ten) no_schedule [0, 1, 2, 3, 4]
            ''peak_times'')
       = Inr [0, 1, 2, 3, 4]
   \<and> scheduled_time
        (fst (schedule_content_calendar (\<lambda>k. half_past_ten) no_schedule [0, 1, 2, 3, 4]
                ''peak_times'') 0)
       = Some \<lparr>ordinal = 738001, hour = 9, minute = 0, second = 0, microsecond = 0\<rparr>
   \<and> scheduled_time
        (fst (schedule_content_calendar (\<lambda>k. half_past_ten) no_schedule [0, 1, 2, 3, 4]
                ''peak_times'') 2)
       = Some \<lparr>ordinal = 738000, hour = 17, minute = 0, second = 0, microsecond = 0\<rparr>
   \<and> scheduled_time
        (fst (schedule_content_calendar (\<lambda>k. half_past_ten) no_schedule [0, 1, 2, 3, 4]
                ''peak_times'') 4)
       = Some \<lparr>ordinal = 738002, hour = 9, minute = 0, second = 0, microsecond = 0\<rparr>"
proof -
  let ?clock = "\<lambda>k::nat. half_past_ten"
  let ?posts = "[0, 1, 2, 3, 4 :: nat]"
  have h: "length ?posts = 5" "distinct ?posts" by simp_all
  have refl: "\<not> dt_less half_past_ten half_past_ten"
    by (simp add: dt_less_def)
  then have mono: "\<forall>j k. j \<le> k \<and> k < 10 \<longrightarrow> \<not> dt_less (?clock k) (?clock j)"
    by simp
  have range: "min_ordinal \<le> ordinal half_past_ten"
    "ordinal half_past_ten + 2 \<le> max_ordinal"
    by (simp_all add: half_past_ten_def min_ordinal_def max_ordinal_def)
  then have room: "\<forall>k<10. min_ordinal \<le> ordinal (?clock k)
                      \<and> ordinal (?clock k) + 2 \<le> max_ordinal"
    by simp
  note t = peak_times_five_posts [OF h mono refl room, of no_schedule]
  from t have all: "\<forall>i<5. scheduled_time
         (fst (schedule_content_calendar ?clock no_schedule ?posts ''peak_times'') (?posts ! i))
         = Some (peak_slot ?clock i)"
    by blast
  have s0: "peak_slot ?clock 0
              = \<lparr>ordinal = 738001, hour = 9, minute = 0, second = 0, microsecond = 0\<rparr>"
    by (simp add: peak_slot_def rolled_def at_hour_def shift_days_def dt_less_def
          half_past_ten_def)
  have s2: "peak_slot ?clock 2
              = \<lparr>ordinal = 738000, hour = 17, minute = 0, second = 0, microsecond = 0\<rparr>"
    by (simp add: peak_slot_def rolled_def at_hour_def shift_days_def dt_less_def
          half_past_ten_def)
  have s4: "peak_slot ?clock 4
              = \<lparr>ordinal = 738002, hour = 9, minute = 0, second = 0, microsecond = 0\<rparr>"
    by (simp add: peak_slot_def rolled_def at_hour_def shift_days_def dt_less_def
          half_past_ten_def)
  have "scheduled_time
         (fst (schedule_content_calendar ?clock no_schedule ?posts ''peak_times'') (?posts ! 0))
         = Some (peak_slot ?clock 0)"
    using all [rule_format, of 0] by simp
  then have r0: "scheduled_time
         (fst (schedule_content_calendar ?clock no_schedule ?posts ''peak_times'') 0)
         = Some \<lparr>ordinal = 738001, hour = 9, minute = 0, second = 0, microsecond = 0\<rparr>"
    by (simp add: s0)
  have "scheduled_time
         (fst (schedule_content_calendar ?clock no_schedule ?posts ''peak_times'') (?posts ! 2))
         = Some (peak_slot ?clock 2)"
    using all [rule_format, of 2] by simp
  then have r2: "scheduled_time
         (fst (schedule_content_calendar ?clock no_schedule ?posts ''peak_times'') 2)
         = Some \<lparr>ordinal = 738000, hour = 17, minute = 0, second = 0, microsecond = 0\<rparr>"
    by (simp add: s2)
  have "scheduled_time
         (fst (schedule_content_calendar ?clock no_schedule ?posts ''peak_times'') (?posts ! 4))
         = Some (peak_slot ?clock 4)"
    using all [rule_format, of 4] by simp
  then have r4: "scheduled_time
         (fst (schedule_content_calendar ?clock no_schedule ?posts ''peak_times'') 4)
         = Some \<lparr>ordinal = 738002, hour = 9, minute = 0, second = 0, microsecond = 0\<rparr>"
    by (simp add: s4)
  from t have ret: "snd (schedule_content_calendar ?clock no_schedule ?posts ''peak_times'')
                      = Inr ?posts"
    by blast
  from h refl range ret r0 r2 r4 show ?thesis by blast
qed

lemma even_hour_seven:
  "map (even_hour 7) [0, 1, 2, 3, 4, 5, 6] = [9, 10, 12, 13, 15, 16, 18]"
  by code_simp

lemma spec_even_hour_seven:
  "map (spec_even_hour 7) [0, 1, 2, 3, 4, 5, 6] = [9, 10, 12, 13, 15, 16, 18]"
  by code_simp

lemma less_seven_cases:
  "i < 7 \<Longrightarrow> i = 0 \<or> i = 1 \<or> i = 2 \<or> i = 3 \<or> i = 4 \<or> i = 5 \<or> i = (6::nat)"
  by arith

lemma even_hour_seven_nth:
  assumes "i < 7"
  shows "even_hour 7 i = [9, 10, 12, 13, 15, 16, 18] ! i"
    and "spec_even_hour 7 i = [9, 10, 12, 13, 15, 16, 18] ! i"
proof -
  have "map (even_hour 7) [0, 1, 2, 3, 4, 5, 6] ! i = even_hour 7 ([0, 1, 2, 3, 4, 5, 6] ! i)"
    using assms by (intro nth_map) simp
  moreover have "[0, 1, 2, 3, 4, 5, 6] ! i = i"
    using less_seven_cases [OF assms] by auto
  ultimately show "even_hour 7 i = [9, 10, 12, 13, 15, 16, 18] ! i"
    by (simp only: even_hour_seven)
  have "map (spec_even_hour 7) [0, 1, 2, 3, 4, 5, 6] ! i
          = spec_even_hour 7 ([0, 1, 2, 3, 4, 5, 6] ! i)"
    using assms by (intro nth_map) simp
  moreover have "[0, 1, 2, 3, 4, 5, 6] ! i = i"
    using less_seven_cases [OF assms] by auto
  ultimately show "spec_even_hour 7 i = [9, 10, 12, 13, 15, 16, 18] ! i"
    by (simp only: spec_even_hour_seven)
qed

lemma even_hour_seven_range:
  assumes "i < 7"
  shows "9 \<le> even_hour 7 i" and "even_hour 7 i \<le> 20"
  using less_seven_cases [OF assms] even_hour_seven_nth(1) [OF assms] by auto

lemma even_hour_seven_inj:
  assumes "i < 7" and "j < 7" and "even_hour 7 i = even_hour 7 j"
  shows "i = j"
  using less_seven_cases [OF assms(1)] less_seven_cases [OF assms(2)] assms(3)
    even_hour_seven_nth(1) [OF assms(1)] even_hour_seven_nth(1) [OF assms(2)]
  by auto

section \<open>Floating point: the hour of an evenly spaced post stays in the window\<close>

text \<open>
  The quotient \<open>11 / n\<close> and its product with \<open>i < n\<close> are each rounded once; the
  truncated product is between 0 and 11, so the hour \<open>9 + int(i * interval)\<close> is
  between 9 and 20 and \<^verbatim>\<open>replace(hour=...)\<close> does not raise.
\<close>

lemma bit_length_upper: "p < 2 ^ bit_length p"
proof (induction p rule: bit_length.induct)
  case (1 n)
  show ?case
  proof (cases "n \<le> 0")
    case True
    then show ?thesis by (subst bit_length.simps) simp
  next
    case False
    then have ih: "n div 2 < 2 ^ bit_length (n div 2)" using 1 by simp
    have "n \<le> 2 * (n div 2) + 1" by presburger
    also have "\<dots> < 2 * 2 ^ bit_length (n div 2)" using ih by simp
    finally show ?thesis using False by (subst bit_length.simps) simp
  qed
qed

lemma bit_length_lower: "0 < p \<Longrightarrow> 2 ^ bit_length p \<le> 2 * p"
proof (induction p rule: bit_length.induct)
  case (1 n)
  show ?case
  proof (cases "n div 2 \<le> 0")
    case True
    with 1(2) have n1: "n = 1" by presburger
    show ?thesis unfolding n1 by code_simp
  next
    case False
    then have "2 ^ bit_length (n div 2) \<le> 2 * (n div 2)" using 1 by simp
    also have "\<dots> \<le> n" by presburger
    finally show ?thesis using 1(2) by (subst bit_length.simps) simp
  qed
qed

lemma bit_length_le:
  assumes "p < 2 ^ j"
  shows "bit_length p \<le> j"
proof (cases "0 < p")
  case False
  then show ?thesis by (subst bit_length.simps) simp
next
  case True
  have "(2::int) ^ bit_length p \<le> 2 * p" by (rule bit_length_lower [OF True])
  also have "\<dots> < 2 * 2 ^ j" using assms by simp
  finally have "(2::int) ^ bit_length p < 2 ^ Suc j" by simp
  then have "bit_length p < Suc j"
    by (simp only: power_strict_increasing_iff) 
  then show ?thesis by simp
qed

lemma bit_length_power: "bit_length (2 ^ a) = Suc a"
proof -
  have "(2::int) ^ a < 2 ^ bit_length (2 ^ a)" by (rule bit_length_upper)
  then have "a < bit_length (2 ^ a)" by (simp only: power_strict_increasing_iff)
  moreover have "bit_length (2 ^ a) \<le> Suc a"
    by (rule bit_length_le) simp
  ultimately show ?thesis by simp
qed

lemma round_half_even_bounds:
  assumes "0 \<le> N" and "0 < D"
  shows "0 \<le> round_half_even N D" and "round_half_even N D * D \<le> N + D"
proof -
  have q: "0 \<le> N div D" using assms by (simp add: pos_imp_zdiv_nonneg_iff)
  have "N div D * D + N mod D = N" by simp
  moreover have "0 \<le> N mod D" using assms(2) by simp
  ultimately have "N div D * D \<le> N" by linarith
  then have a: "N div D * D \<le> N + D" "(N div D + 1) * D \<le> N + D"
    using assms(2) by (simp_all add: algebra_simps)
  show "0 \<le> round_half_even N D"
    using q by (simp add: round_half_even_def Let_def)
  show "round_half_even N D * D \<le> N + D"
    using a by (simp add: round_half_even_def Let_def)
qed


lemma bit_length_eleven: "bit_length 11 = 4"
  by code_simp

lemma interval_bounds:
  assumes "0 < n"
  shows "snd (round_double 11 n) < 0"
    and "int (48 + bit_length n) \<le> - snd (round_double 11 n)"
    and "0 \<le> fst (round_double 11 n)"
    and "fst (round_double 11 n) * n \<le> 11 * 2 ^ nat (- snd (round_double 11 n)) + n"
proof -
  define k where "k = int (bit_length 11) - int (bit_length n) - 53"
  define e where "e = (if n * 2 ^ nat k * 2 ^ 53 \<le> 11 * 2 ^ nat (- k) then k + 1 else k)"
  have k: "k = - 49 - int (bit_length n)"
    by (simp add: k_def bit_length_eleven)
  have bl: "1 \<le> bit_length n"
    using assms by (subst bit_length.simps) simp
  have e: "e = k \<or> e = k + 1" by (simp add: e_def)
  have rd: "round_double 11 n = (round_half_even (11 * 2 ^ nat (- e)) (n * 2 ^ nat e), e)"
    unfolding round_double_def Let_def k_def e_def by simp
  have eneg: "e < 0" using e k bl by auto
  then have ne: "nat e = 0" by simp
  show "snd (round_double 11 n) < 0" using eneg by (simp add: rd)
  show "int (48 + bit_length n) \<le> - snd (round_double 11 n)"
    using e k by (auto simp: rd)
  have pos: "(0::int) \<le> 11 * 2 ^ nat (- e)" by simp
  from round_half_even_bounds [OF pos assms]
  show "0 \<le> fst (round_double 11 n)"
    and "fst (round_double 11 n) * n \<le> 11 * 2 ^ nat (- snd (round_double 11 n)) + n"
    by (simp_all add: rd ne)
qed


lemma key_bound:
  fixes n i m A L T P :: int
  assumes "0 < n" "0 \<le> i" "i < n" "0 \<le> m" "m * n \<le> 11 * A + n"
    and "n < L" "T * L \<le> A" "0 < T" "0 < A" "P = i * m"
  shows "P * T < 11 * A * T + A"
proof -
  have "n * P = i * (m * n)" using assms(10) by (simp add: algebra_simps)
  also have "\<dots> \<le> i * (11 * A + n)"
    using assms(2,5) by (rule mult_left_mono [rotated])
  also have "\<dots> \<le> (n - 1) * (11 * A + n)"
    using assms(1,3,9) by (intro mult_right_mono) simp_all
  finally have 1: "n * P \<le> (n - 1) * (11 * A + n)" .
  have "(n - 1) * T \<le> L * T"
    using assms(6,8) by (intro mult_right_mono) simp_all
  also have "\<dots> \<le> A" using assms(7) by (simp add: mult.commute)
  finally have 2: "(n - 1) * T \<le> A" .
  have "n * ((n - 1) * T) \<le> n * A"
    using 2 assms(1) by (intro mult_left_mono) simp_all
  then have 3: "n * (n - 1) * T \<le> n * A" by (simp add: mult.assoc)
  have "n * P * T \<le> (n - 1) * (11 * A + n) * T"
    using 1 assms(8) by (intro mult_right_mono) simp_all
  also have "\<dots> = n * (11 * A * T) - 11 * A * T + n * (n - 1) * T"
    by (simp add: algebra_simps)
  also have "\<dots> \<le> n * (11 * A * T) - 11 * A * T + n * A"
    using 3 by simp
  also have "\<dots> < n * (11 * A * T) + n * A"
    using assms(8,9) by simp
  finally have "n * (P * T) < n * (11 * A * T + A)"
    by (simp add: algebra_simps)
  then show ?thesis
    using assms(1) by (simp only: mult_less_cancel_left_pos)
qed

lemma final_bound:
  fixes m' A B T P :: int
  assumes "P * T < 11 * A * T + A" "m' * A \<le> P * B + A" "2 \<le> B" "2 \<le> T" "0 < A"
  shows "m' < 12 * B"
proof -
  have bt: "B + T \<le> T * B"
  proof -
    have "0 \<le> (B - 2) * (T - 2)"
      using assms(3,4) by (intro mult_nonneg_nonneg) simp_all
    then have "2 * B + 2 * T - 4 \<le> T * B" by (simp add: algebra_simps)
    then show ?thesis using assms(3,4) by linarith
  qed
  have "m' * A * T \<le> (P * B + A) * T"
    using assms(2,4) by (intro mult_right_mono) simp_all
  also have "\<dots> = (P * T) * B + A * T" by (simp add: algebra_simps)
  also have "\<dots> < (11 * A * T + A) * B + A * T"
    using assms(1,3) by simp
  also have "\<dots> = A * (11 * T * B + (B + T))" by (simp add: algebra_simps)
  also have "\<dots> \<le> A * (11 * T * B + T * B)"
  proof -
    have "11 * T * B + (B + T) \<le> 11 * T * B + T * B" using bt by linarith
    moreover have "0 \<le> A" using assms(5) by simp
    ultimately show ?thesis by (rule mult_left_mono)
  qed
  also have "\<dots> = (A * T) * (12 * B)" by (simp add: algebra_simps)
  finally have "(A * T) * m' < (A * T) * (12 * B)" by (simp add: algebra_simps)
  moreover have "0 < A * T" using assms(4,5) by simp
  ultimately show ?thesis by (simp only: mult_less_cancel_left_pos)
qed


lemma even_product_bound:
  assumes "0 < n" and "0 \<le> i" and "i < n"
  shows "0 \<le> py_int (py_mul_int_float i (round_double 11 n))"
    and "py_int (py_mul_int_float i (round_double 11 n)) \<le> 11"
proof -
  obtain m e where me: "round_double 11 n = (m, e)" by (cases "round_double 11 n")
  define a where "a = nat (- e)"
  define A :: int where "A = 2 ^ a"
  define T :: int where "T = 2 ^ 48"
  define L :: int where "L = 2 ^ bit_length n"
  define P where "P = i * m"
  note ib = interval_bounds [OF assms(1), unfolded me fst_conv snd_conv]
  have eneg: "e < 0" by (rule ib(1))
  have a48: "48 + bit_length n \<le> a" using ib(2) by (simp add: a_def)
  have m0: "0 \<le> m" by (rule ib(3))
  have mn: "m * n \<le> 11 * A + n" using ib(4) by (simp add: A_def a_def)
  have nL: "n < L" unfolding L_def by (rule bit_length_upper)
  have "(2::int) ^ (48 + bit_length n) \<le> 2 ^ a"
    using a48 by (intro power_increasing) simp_all
  then have TL: "T * L \<le> A" by (simp add: T_def L_def A_def power_add)
  have Tpos: "0 < T" "2 \<le> T" by (simp_all add: T_def)
  have Apos: "0 < A" by (simp add: A_def)
  have key: "P * T < 11 * A * T + A"
    by (rule key_bound [OF assms(1,2,3) m0 mn nL TL Tpos(1) Apos P_def])
  have prod: "py_mul_int_float i (round_double 11 n) = round_double P A"
    using eneg by (simp add: py_mul_int_float_def me P_def A_def a_def)
  have P0: "0 \<le> P" using assms(2) m0 by (simp add: P_def)
  show "0 \<le> py_int (py_mul_int_float i (round_double 11 n))"
    and "py_int (py_mul_int_float i (round_double 11 n)) \<le> 11"
  proof -
    have "0 \<le> py_int (round_double P A) \<and> py_int (round_double P A) \<le> 11"
    proof (cases "P = 0")
      case True
      then show ?thesis by (simp add: round_double_def py_int_def)
    next
      case False
      with P0 have Ppos: "0 < P" by simp
      define k where "k = int (bit_length P) - int (bit_length A) - 53"
      define e' where
        "e' = (if A * 2 ^ nat k * 2 ^ 53 \<le> P * 2 ^ nat (- k) then k + 1 else k)"
      define B :: int where "B = 2 ^ nat (- e')"
      define m' where "m' = round_half_even (P * B) A"
      have "P * T < 12 * A * T"
      proof -
        have "A \<le> A * T" using Apos Tpos(1) by simp
        with key show ?thesis by (simp add: algebra_simps)
      qed
      then have "P < 12 * A" using Tpos(1) by simp
      also have "\<dots> \<le> 2 ^ 4 * A" using Apos by simp
      finally have "P < 2 ^ (4 + a)" by (simp add: A_def power_add)
      then have blP: "bit_length P \<le> 4 + a" by (rule bit_length_le)
      have blA: "bit_length A = Suc a" unfolding A_def by (rule bit_length_power)
      have k: "k \<le> - 50" using blP by (simp add: k_def blA)
      have e': "e' \<le> - 49" using k by (simp add: e'_def)
      then have ne: "nat e' = 0" by simp
      have "round_double P A
              = (round_half_even (P * 2 ^ nat (- e')) (A * 2 ^ nat e'), e')"
        unfolding round_double_def e'_def k_def Let_def using False by simp
      then have rd: "round_double P A = (m', e')"
        by (simp add: ne m'_def B_def)
      have "(2::int) ^ 1 \<le> 2 ^ nat (- e')"
        using e' by (intro power_increasing) simp_all
      then have B2: "2 \<le> B" by (simp add: B_def)
      have PB: "0 \<le> P * B" using P0 B2 by simp
      from round_half_even_bounds [OF PB Apos]
      have m'0: "0 \<le> m'" and m'A: "m' * A \<le> P * B + A"
        by (simp_all add: m'_def)
      have lt: "m' < 12 * B"
        by (rule final_bound [OF key m'A B2 Tpos(2) Apos])
      have pi: "py_int (round_double P A) = m' div B"
        using e' by (simp add: rd py_int_def B_def)
      have Bpos: "0 < B" using B2 by simp
      have "0 \<le> m' div B" using m'0 Bpos by (simp add: pos_imp_zdiv_nonneg_iff)
      moreover have "m' div B < 12"
      proof (rule ccontr)
        assume "\<not> m' div B < 12"
        then have "B * 12 \<le> B * (m' div B)"
          using Bpos by (intro mult_left_mono) simp_all
        moreover have "B * (m' div B) + m' mod B = m'" by simp
        moreover have "0 \<le> m' mod B" using Bpos by simp
        ultimately show False using lt by linarith
      qed
      ultimately show ?thesis by (simp add: pi)
    qed
    then show "0 \<le> py_int (py_mul_int_float i (round_double 11 n))"
      and "py_int (py_mul_int_float i (round_double 11 n)) \<le> 11"
      by (simp_all add: prod)
  qed
qed

lemma even_hour_range:
  assumes "i < n"
  shows "9 \<le> even_hour n i" and "even_hour n i \<le> 20"
proof -
  have n: "0 < int n" and i: "0 \<le> int i" "int i < int n"
    using assms by simp_all
  from even_product_bound [OF n i]
  show "9 \<le> even_hour n i" and "even_hour n i \<le> 20"
    by (simp_all add: even_hour_def py_truediv_def)
qed

lemma hour_even_slot:
  assumes "i < n"
  shows "int (hour (even_slot clock n i)) = even_hour n i"
  using even_hour_range(1) [OF assms] by (simp add: even_slot_def hour_rolled)

lemma even_slot_not_before:
  assumes "\<not> dt_less (clock (2 * i)) now" and "\<not> dt_less (clock (2 * i + 1)) now"
  shows "\<not> dt_less (even_slot clock n i) now"
  unfolding even_slot_def by (rule rolled_not_before [OF assms])

lemma even_spacing_run:
  assumes "posts \<noteq> []"
    and "\<forall>k<2 * length posts.
           min_ordinal \<le> ordinal (clock k) \<and> ordinal (clock k) + 1 \<le> max_ordinal"
  shows "schedule_content_calendar clock st posts ''even_spacing''
     = (assign_times (even_slot clock (length posts)) 0 posts st, Inr posts)"
proof -
  let ?interval = "py_truediv (end_hour - start_hour) (int (length posts))"
  have h: "start_hour + py_int (py_mul_int_float (int j) ?interval)
             = even_hour (length posts) j" for j
    by (simp add: start_hour_def end_hour_def even_hour_def)
  have "\<forall>j. 0 \<le> j \<and> j < 0 + length posts
        \<longrightarrow> 0 \<le> start_hour + py_int (py_mul_int_float (int j) ?interval)
            \<and> start_hour + py_int (py_mul_int_float (int j) ?interval) \<le> 23
            \<and> min_ordinal \<le> ordinal (clock (2 * j))
            \<and> ordinal (rolled (clock (2 * j)) (clock (2 * j + 1))
                         (start_hour + py_int (py_mul_int_float (int j) ?interval)))
                \<le> max_ordinal"
  proof (intro allI impI)
    fix j
    assume "0 \<le> j \<and> j < 0 + length posts"
    then have j: "j < length posts" by simp
    then have "2 * j < 2 * length posts" by simp
    with assms(2) have c: "min_ordinal \<le> ordinal (clock (2 * j))"
      "ordinal (clock (2 * j)) + 1 \<le> max_ordinal"
      by blast+
    have "ordinal (rolled (clock (2 * j)) (clock (2 * j + 1)) (even_hour (length posts) j))
            \<le> max_ordinal"
      using c(2) ordinal_rolled_bounds(2)
              [of "clock (2 * j)" "clock (2 * j + 1)" "even_hour (length posts) j"]
      by linarith
    with even_hour_range [OF j] c(1)
    show "0 \<le> start_hour + py_int (py_mul_int_float (int j) ?interval)
            \<and> start_hour + py_int (py_mul_int_float (int j) ?interval) \<le> 23
            \<and> min_ordinal \<le> ordinal (clock (2 * j))
            \<and> ordinal (rolled (clock (2 * j)) (clock (2 * j + 1))
                         (start_hour + py_int (py_mul_int_float (int j) ?interval)))
                \<le> max_ordinal"
      by (simp add: h)
  qed
  from even_spacing_loop_run [OF this, of st "[]"]
  have "even_spacing_loop clock ?interval 0 posts st []
          = (assign_times (even_slot clock (length posts)) 0 posts st, Inr posts)"
    by (simp add: h even_slot_def [abs_def])
  then show ?thesis
    using assms(1) by (simp add: schedule_content_calendar_def)
qed

lemma even_spacing_post:
  assumes "distinct posts" and "i < length posts"
    and "\<forall>k<2 * length posts.
           min_ordinal \<le> ordinal (clock k) \<and> ordinal (clock k) + 1 \<le> max_ordinal"
  shows "scheduled_time
           (fst (schedule_content_calendar clock st posts ''even_spacing'') (posts ! i))
           = Some (even_slot clock (length posts) i)"
proof -
  have "posts \<noteq> []" using assms(2) by auto
  from even_spacing_run [OF this assms(3), of st]
    assign_times_nth [OF assms(1,2), of "even_slot clock (length posts)" 0 st]
  show ?thesis by simp
qed

text \<open>
  C8 (as stated): post \<open>i\<close> of \<open>N\<close> gets the hour \<open>9 + floor(i * (20 - 9) / N)\<close>.
  The source computes \<open>int(i * interval)\<close> with the float \<open>interval = 11 / N\<close>, and
  the two roundings can fall below an exact integer: of 539 posts (539 different
  dictionaries, the clock reading 08:00 throughout the call), the post at index 49 is
  scheduled at hour 9, where the formula gives \<open>9 + floor(49 * 11 / 539) = 10\<close>.
\<close>

theorem even_spacing_float_counterexample:
  "snd (schedule_content_calendar (\<lambda>k. epoch) no_schedule [0..<539] ''even_spacing'')
     = Inr [0..<539]
   \<and> scheduled_time
        (fst (schedule_content_calendar (\<lambda>k. epoch) no_schedule [0..<539] ''even_spacing'')
          49)
       = Some \<lparr>ordinal = 738000, hour = 9, minute = 0, second = 0, microsecond = 0\<rparr>
   \<and> spec_even_hour 539 49 = 10"
proof -
  have ne: "[0..<539] \<noteq> []" by simp
  have d: "distinct [0..<539]" and l: "49 < length [0..<539]" by simp_all
  have room: "\<forall>k<2 * length [0..<539].
           min_ordinal \<le> ordinal ((\<lambda>k. epoch) k) \<and> ordinal ((\<lambda>k. epoch) k) + 1 \<le> max_ordinal"
    by (simp add: epoch_def min_ordinal_def max_ordinal_def)
  have eh: "even_hour 539 49 = 9" by code_simp
  have sh: "spec_even_hour 539 49 = 10" by code_simp
  have r: "even_slot (\<lambda>k. epoch) 539 49
             = \<lparr>ordinal = 738000, hour = 9, minute = 0, second = 0, microsecond = 0\<rparr>"
    by (simp add: even_slot_def eh rolled_def at_hour_def dt_less_def epoch_def)
  have "snd (schedule_content_calendar (\<lambda>k. epoch) no_schedule [0..<539] ''even_spacing'')
          = Inr [0..<539]"
    using even_spacing_run [OF ne room, of no_schedule] by simp
  moreover have "scheduled_time
        (fst (schedule_content_calendar (\<lambda>k. epoch) no_schedule [0..<539] ''even_spacing'') 49)
       = Some \<lparr>ordinal = 738000, hour = 9, minute = 0, second = 0, microsecond = 0\<rparr>"
    using even_spacing_post [OF d l room, of no_schedule] by (simp add: r)
  ultimately show ?thesis using sh by blast
qed

text \<open>
  C8 (amended): with the strategy \<^verbatim>\<open>even_spacing\<close> and \<open>N \<ge> 1\<close> posts (\<open>N\<close>
  different dictionaries), invoked at \<open>now\<close> with a clock that does not read a time
  before \<open>now\<close> and stays a day or more before 9999-12-31, the call returns the posts,
  and post \<open>i\<close> carries \<open>even_slot clock N i\<close>: the hour
  \<open>even_hour N i = 9 + int(i * interval)\<close>, computed in double precision with
  \<open>interval = 11 / N\<close>, sharp on the day of the reading taken for that post, moved
  forward one day when that is before the next reading. That hour is between 9 and 20
  and the timestamp is not before \<open>now\<close>. For 7 posts the hour is
  \<open>9 + floor(i * 11 / 7)\<close> and the 7 timestamps are pairwise distinct.
\<close>

theorem even_spacing_posts:
  assumes "posts \<noteq> []" and "distinct posts"
    and "\<forall>k<2 * length posts. \<not> dt_less (clock k) now"
    and "\<forall>k<2 * length posts.
           min_ordinal \<le> ordinal (clock k) \<and> ordinal (clock k) + 1 \<le> max_ordinal"
  shows "snd (schedule_content_calendar clock st posts ''even_spacing'') = Inr posts
    \<and> (\<forall>i<length posts.
          scheduled_time
            (fst (schedule_content_calendar clock st posts ''even_spacing'') (posts ! i))
            = Some (even_slot clock (length posts) i)
          \<and> even_slot clock (length posts) i
              = rolled (clock (2 * i)) (clock (2 * i + 1)) (even_hour (length posts) i)
          \<and> int (hour (even_slot clock (length posts) i)) = even_hour (length posts) i
          \<and> 9 \<le> even_hour (length posts) i \<and> even_hour (length posts) i \<le> 20
          \<and> \<not> dt_less (even_slot clock (length posts) i) now)
    \<and> (length posts = 7 \<longrightarrow>
          (\<forall>i<7. even_hour 7 i = spec_even_hour 7 i)
          \<and> distinct
              (map (\<lambda>p. scheduled_time
                          (fst (schedule_content_calendar clock st posts ''even_spacing'') p))
                 posts))"
proof -
  let ?st' = "fst (schedule_content_calendar clock st posts ''even_spacing'')"
  have ret: "snd (schedule_content_calendar clock st posts ''even_spacing'') = Inr posts"
    using even_spacing_run [OF assms(1,4), of st] by simp
  have each: "\<forall>i<length posts.
          scheduled_time (?st' (posts ! i)) = Some (even_slot clock (length posts) i)
          \<and> even_slot clock (length posts) i
              = rolled (clock (2 * i)) (clock (2 * i + 1)) (even_hour (length posts) i)
          \<and> int (hour (even_slot clock (length posts) i)) = even_hour (length posts) i
          \<and> 9 \<le> even_hour (length posts) i \<and> even_hour (length posts) i \<le> 20
          \<and> \<not> dt_less (even_slot clock (length posts) i) now"
  proof (intro allI impI)
    fix i
    assume i: "i < length posts"
    then have "2 * i < 2 * length posts" "2 * i + 1 < 2 * length posts" by simp_all
    with assms(3) have "\<not> dt_less (clock (2 * i)) now" "\<not> dt_less (clock (2 * i + 1)) now"
      by blast+
    from even_slot_not_before [OF this]
    have "\<not> dt_less (even_slot clock (length posts) i) now" .
    with even_spacing_post [OF assms(2) i assms(4), of st] hour_even_slot [OF i, of clock]
      even_hour_range [OF i]
    show "scheduled_time (?st' (posts ! i)) = Some (even_slot clock (length posts) i)
          \<and> even_slot clock (length posts) i
              = rolled (clock (2 * i)) (clock (2 * i + 1)) (even_hour (length posts) i)
          \<and> int (hour (even_slot clock (length posts) i)) = even_hour (length posts) i
          \<and> 9 \<le> even_hour (length posts) i \<and> even_hour (length posts) i \<le> 20
          \<and> \<not> dt_less (even_slot clock (length posts) i) now"
      by (simp add: even_slot_def)
  qed
  have seven: "length posts = 7 \<longrightarrow>
          (\<forall>i<7. even_hour 7 i = spec_even_hour 7 i)
          \<and> distinct (map (\<lambda>p. scheduled_time (?st' p)) posts)"
  proof
    assume len: "length posts = 7"
    have eq: "\<forall>i<7. even_hour 7 i = spec_even_hour 7 i"
      using even_hour_seven_nth by simp
    have "map (\<lambda>p. scheduled_time (?st' p)) posts ! i
            \<noteq> map (\<lambda>p. scheduled_time (?st' p)) posts ! j"
      if "i < 7" "j < 7" "i \<noteq> j" for i j
    proof
      assume same: "map (\<lambda>p. scheduled_time (?st' p)) posts ! i
                      = map (\<lambda>p. scheduled_time (?st' p)) posts ! j"
      have il: "i < length posts" and jl: "j < length posts"
        using that len by simp_all
      have "scheduled_time (?st' (posts ! i)) = scheduled_time (?st' (posts ! j))"
        using same il jl by simp
      then have "even_slot clock 7 i = even_slot clock 7 j"
        using even_spacing_post [OF assms(2) il assms(4), of st]
          even_spacing_post [OF assms(2) jl assms(4), of st] len
        by simp
      then have "int (hour (even_slot clock 7 i)) = int (hour (even_slot clock 7 j))"
        by simp
      then have "even_hour 7 i = even_hour 7 j"
        using hour_even_slot [OF that(1), of clock] hour_even_slot [OF that(2), of clock]
        by simp
      from even_hour_seven_inj [OF that(1,2) this] that(3) show False by simp
    qed
    then have "distinct (map (\<lambda>p. scheduled_time (?st' p)) posts)"
      using len by (simp add: distinct_conv_nth)
    with eq show "(\<forall>i<7. even_hour 7 i = spec_even_hour 7 i)
          \<and> distinct (map (\<lambda>p. scheduled_time (?st' p)) posts)"
      by blast
  qed
  from ret each seven show ?thesis by blast
qed

theorem even_spacing_posts_witness:
  "[0, 1, 2, 3, 4, 5, 6 :: nat] \<noteq> [] \<and> distinct [0, 1, 2, 3, 4, 5, 6 :: nat]
   \<and> \<not> dt_less before_midnight before_midnight \<and> \<not> dt_less after_midnight before_midnight
   \<and> snd (schedule_content_calendar clock_across_midnight no_schedule
            [0, 1, 2, 3, 4, 5, 6] ''even_spacing'')
       = Inr [0, 1, 2, 3, 4, 5, 6]
   \<and> scheduled_time
        (fst (schedule_content_calendar clock_across_midnight no_schedule
                [0, 1, 2, 3, 4, 5, 6] ''even_spacing'') 0)
       = Some \<lparr>ordinal = 738001, hour = 9, minute = 0, second = 0, microsecond = 0\<rparr>
   \<and> scheduled_time
        (fst (schedule_content_calendar clock_across_midnight no_schedule
                [0, 1, 2, 3, 4, 5, 6] ''even_spacing'') 2)
       = Some \<lparr>ordinal = 738001, hour = 12, minute = 0, second = 0, microsecond = 0\<rparr>
   \<and> scheduled_time
        (fst (schedule_content_calendar clock_across_midnight no_schedule
                [0, 1, 2, 3, 4, 5, 6] ''even_spacing'') 6)
       = Some \<lparr>ordinal = 738001, hour = 18, minute = 0, second = 0, microsecond = 0\<rparr>
   \<and> distinct
        (map (\<lambda>p. scheduled_time
                (fst (schedule_content_calendar clock_across_midnight no_schedule
                        [0, 1, 2, 3, 4, 5, 6] ''even_spacing'') p))
           [0, 1, 2, 3, 4, 5, 6])"
proof -
  let ?clock = clock_across_midnight
  let ?posts = "[0, 1, 2, 3, 4, 5, 6 :: nat]"
  have h: "?posts \<noteq> []" "distinct ?posts" by simp_all
  have len: "length ?posts = 7" by simp
  have a: "\<not> dt_less before_midnight before_midnight"
    "\<not> dt_less after_midnight before_midnight"
    by (simp_all add: dt_less_def before_midnight_def after_midnight_def)
  then have later: "\<forall>k<2 * length ?posts. \<not> dt_less (?clock k) before_midnight"
    by (simp add: clock_across_midnight_def)
  have room: "\<forall>k<2 * length ?posts.
           min_ordinal \<le> ordinal (?clock k) \<and> ordinal (?clock k) + 1 \<le> max_ordinal"
    by (simp add: clock_across_midnight_def before_midnight_def after_midnight_def min_ordinal_def
          max_ordinal_def)
  note t = even_spacing_posts [OF h later room, of no_schedule, unfolded len]
  from t have ret: "snd (schedule_content_calendar ?clock no_schedule ?posts ''even_spacing'')
                      = Inr ?posts"
    by blast
  from t have all: "\<forall>i<7. scheduled_time
         (fst (schedule_content_calendar ?clock no_schedule ?posts ''even_spacing'') (?posts ! i))
         = Some (even_slot ?clock 7 i)"
    by blast
  from t have dis: "distinct
        (map (\<lambda>p. scheduled_time
                (fst (schedule_content_calendar ?clock no_schedule ?posts ''even_spacing'') p))
           ?posts)"
    by blast
  have e0: "even_hour 7 0 = 9" and e2: "even_hour 7 2 = 12" and e6: "even_hour 7 6 = 18"
    using even_hour_seven_nth(1) [of 0] even_hour_seven_nth(1) [of 2]
      even_hour_seven_nth(1) [of 6]
    by simp_all
  have s0: "even_slot ?clock 7 0
              = \<lparr>ordinal = 738001, hour = 9, minute = 0, second = 0, microsecond = 0\<rparr>"
    by (simp add: even_slot_def e0 rolled_def at_hour_def shift_days_def dt_less_def
          clock_across_midnight_def before_midnight_def after_midnight_def)
  have s2: "even_slot ?clock 7 2
              = \<lparr>ordinal = 738001, hour = 12, minute = 0, second = 0, microsecond = 0\<rparr>"
    by (simp add: even_slot_def e2 rolled_def at_hour_def shift_days_def dt_less_def
          clock_across_midnight_def before_midnight_def after_midnight_def)
  have s6: "even_slot ?clock 7 6
              = \<lparr>ordinal = 738001, hour = 18, minute = 0, second = 0, microsecond = 0\<rparr>"
    by (simp add: even_slot_def e6 rolled_def at_hour_def shift_days_def dt_less_def
          clock_across_midnight_def before_midnight_def after_midnight_def)
  have r0: "scheduled_time
         (fst (schedule_content_calendar ?clock no_schedule ?posts ''even_spacing'') 0)
         = Some \<lparr>ordinal = 738001, hour = 9, minute = 0, second = 0, microsecond = 0\<rparr>"
    using all [rule_format, of 0] by (simp add: s0)
  have r2: "scheduled_time
         (fst (schedule_content_calendar ?clock no_schedule ?posts ''even_spacing'') 2)
         = Some \<lparr>ordinal = 738001, hour = 12, minute = 0, second = 0, microsecond = 0\<rparr>"
    using all [rule_format, of 2] by (simp add: s2)
  have r6: "scheduled_time
         (fst (schedule_content_calendar ?clock no_schedule ?posts ''even_spacing'') 6)
         = Some \<lparr>ordinal = 738001, hour = 18, minute = 0, second = 0, microsecond = 0\<rparr>"
    using all [rule_format, of 6] by (simp add: s6)
  from h a ret r0 r2 r6 dis show ?thesis by blast
qed

section \<open>Dispatch coordinator: results\<close>

lemma generate_hashtags_hi: "generate_hashtags ''hi'' ''nonexistent'' 10 True = []"
  by code_simp

lemma nonexistent_not_platform: "''nonexistent'' \<notin> set PlatformType"
  by (simp add: PlatformType_def)

lemma prepare_nonexistent:
  "create_post_prepare environ self
     (PDict [(''platforms'', PList [PStr ''nonexistent'']),
             (''content'', PDict [(''text'', PStr ''hi'')])])
   = Inl (enum_error ''Post'' ''nonexistent'')"
  by (simp add: create_post_prepare_def as_str_list_def process_media_def
        content_hashtags_def generate_hashtags_hi Post_def nonexistent_not_platform)

text \<open>
  C1 (the code at the failing input): \<open>create_post\<close> with the platform
  \<^verbatim>\<open>nonexistent\<close> and the text \<^verbatim>\<open>hi\<close>, on any server and in any environment, raises
  the \<^verbatim>\<open>ValidationError\<close> of the \<open>Post\<close> constructor, whose \<open>platforms\<close> field is a list
  of \<open>PlatformType\<close>; it builds no results map, and \<open>handle_call_tool\<close> answers with
  the error and the tool name.
\<close>

theorem create_post_nonexistent_raises:
  "create_post environ
     (PDict [(''platforms'', PList [PStr ''nonexistent'']),
             (''content'', PDict [(''text'', PStr ''hi'')])]) self
   = (self, Inl (enum_error ''Post'' ''nonexistent''))
   \<and> handle_call_tool environ handlers ''create_post''
       (PDict [(''platforms'', PList [PStr ''nonexistent'']),
               (''content'', PDict [(''text'', PStr ''hi'')])]) self
     = (self,
        Inr [TextContent ''text''
               (PDict [(''error'', PStr (str_error (enum_error ''Post'' ''nonexistent''))),
                       (''tool'', PStr ''create_post'')])])"
proof -
  have "is_exception (enum_error ''Post'' ''nonexistent'')"
    by (simp add: enum_error_def)
  then show ?thesis
    by (simp add: create_post_def prepare_nonexistent handle_call_tool_def call_tool_def
          error_content_def)
qed

lemma timedelta_unbound:
  "lookup_global server_globals ''timedelta''
     = Inl (NameError (''name '' @ quoted ''timedelta'' @ '' is not defined''))"
  by (simp add: lookup_global_def server_globals_def)

text \<open>
  C2 (the code at the failing input): \<open>schedule_posts\<close> with \<open>optimize_spacing\<close> true
  and two or more posts raises \<^verbatim>\<open>NameError\<close> at the first post, because
  \<^verbatim>\<open>server.py\<close> never imports \<^verbatim>\<open>timedelta\<close>: no timestamp is assigned, \<open>create_post\<close>
  is not reached and the server is unchanged.
\<close>

theorem schedule_posts_spacing_raises:
  "schedule_posts environ
     (PDict [(''posts'', PList (first_post # second_post # more_posts)),
             (''optimize_spacing'', PBool True)]) self
   = (self, Inl (NameError (''name '' @ quoted ''timedelta'' @ '' is not defined'')))"
  by (simp add: schedule_posts_def timedelta_unbound)

text \<open>
  C3 (the code at the failing input): with the LinkedIn capability of the repository
  registered, whose analytics succeed with 1000 impressions and an engagement of 50,
  \<open>get_analytics\<close> reports the totals 0 and 0 and the rate 0: it looks for the keys
  \<^verbatim>\<open>impressions\<close> and \<^verbatim>\<open>engagement\<close> at the top of \<^verbatim>\<open>Analytics.dict()\<close>, where the
  metrics are nested under \<^verbatim>\<open>metrics\<close>.
\<close>

theorem get_analytics_totals_zero:
  "snd (get_analytics example_env (PDict [(''platforms'', PList [PStr ''linkedin''])])
          example_server)
   = Inr (PDict
       [(''platforms'',
         PDict [(''linkedin'',
                 PDict [(''platform'', PStr ''linkedin''),
                        (''metrics'',
                         PDict [(''impressions'', PInt 1000), (''engagement'', PInt 50),
                                (''clicks'', PInt 25)]),
                        (''date_range'', PNone), (''post_ids'', PNone),
                        (''demographic_data'', PNone), (''top_content'', PNone)])]),
        (''aggregated'',
         PDict [(''total_impressions'', PInt 0), (''total_engagement'', PInt 0),
                (''engagement_rate'', PInt 0)])])"
  by (simp add: get_analytics_def as_str_list_def example_server_def linkedin_client_def
        analytics_dict_def analytics_entry_def)

lemma map_of_dict_set: "map_of (dict_set kvs k v) = (map_of kvs)(k \<mapsto> v)"
  by (induction kvs) (auto simp: fun_eq_iff)

lemma platform_loop_platforms:
  "platforms (fst (platform_loop environ p schedule requested self results)) = platforms self"
proof (induction requested arbitrary: self results)
  case Nil
  show ?case by simp
next
  case (Cons platform rest)
  show ?case
    by (simp add: Cons.IH split: option.split sum.split)
qed

lemma scheduling_raises_exception:
  assumes "bindE (parse_schedule environ schedule) (ScheduledPost ident p platform) = Inl e"
  shows "is_exception e"
  using assms
  by (auto simp: bindE_def parse_schedule_def ScheduledPost_def enum_error_def
        split: sum.splits pyval.splits option.splits if_splits)

lemma platform_loop_calendar:
  "\<exists>added. scheduled_posts (fst (platform_loop environ p schedule requested self results))
             = scheduled_posts self @ added
     \<and> list_all (\<lambda>entry. platforms self (scheduled_platform entry) \<noteq> None
                          \<and> scheduled_platform entry \<in> set requested) added"
proof (induction requested arbitrary: self results)
  case Nil
  show ?case by simp
next
  case (Cons platform rest)
  show ?case
  proof (cases "platforms self platform")
    case None
    from Cons.IH [of self "dict_set results platform (not_configured platform)"]
    obtain added where
      "scheduled_posts (fst (platform_loop environ p schedule rest self
                               (dict_set results platform (not_configured platform))))
         = scheduled_posts self @ added"
      "list_all (\<lambda>entry. platforms self (scheduled_platform entry) \<noteq> None
                          \<and> scheduled_platform entry \<in> set rest) added"
      by blast
    then show ?thesis
      using None by (auto simp: list_all_iff)
  next
    case (Some client)
    show ?thesis
    proof (cases "truthy schedule")
      case False
      let ?self' = "self\<lparr>invocations := invocations self @ [(platform, p)]\<rparr>"
      have step: "\<exists>added. scheduled_posts (fst (platform_loop environ p schedule rest ?self' r))
                     = scheduled_posts self @ added
             \<and> list_all (\<lambda>entry. platforms self (scheduled_platform entry) \<noteq> None
                          \<and> scheduled_platform entry \<in> set (platform # rest)) added" for r
      proof -
        from Cons.IH [of ?self' r] obtain added where
          "scheduled_posts (fst (platform_loop environ p schedule rest ?self' r))
             = scheduled_posts ?self' @ added"
          "list_all (\<lambda>entry. platforms ?self' (scheduled_platform entry) \<noteq> None
                          \<and> scheduled_platform entry \<in> set rest) added"
          by blast
        then show ?thesis by (auto simp: list_all_iff)
      qed
      show ?thesis
        using Some False step by (simp split: sum.split)
    next
      case True
      show ?thesis
      proof (cases "bindE (parse_schedule environ schedule)
                      (ScheduledPost (uuid4 environ (uuid_draws self)) p platform)")
        case (Inl e)
        from Cons.IH [of self "dict_set results platform (failure e)"]
        obtain added where
          "scheduled_posts (fst (platform_loop environ p schedule rest self
                                   (dict_set results platform (failure e))))
             = scheduled_posts self @ added"
          "list_all (\<lambda>entry. platforms self (scheduled_platform entry) \<noteq> None
                          \<and> scheduled_platform entry \<in> set rest) added"
          by blast
        then show ?thesis
          using Some True Inl scheduling_raises_exception [OF Inl]
          by (auto simp: list_all_iff)
      next
        case (Inr scheduled)
        let ?self' = "self\<lparr>scheduled_posts := scheduled_posts self @ [scheduled],
                            uuid_draws := Suc (uuid_draws self)\<rparr>"
        have plat: "scheduled_platform scheduled = platform"
          using Inr
          by (auto simp: bindE_def ScheduledPost_def split: sum.splits if_splits)
        from Cons.IH [of ?self' "dict_set results platform (scheduled_ack schedule)"]
        obtain added where a:
          "scheduled_posts (fst (platform_loop environ p schedule rest ?self'
                                   (dict_set results platform (scheduled_ack schedule))))
             = scheduled_posts ?self' @ added"
          "list_all (\<lambda>entry. platforms ?self' (scheduled_platform entry) \<noteq> None
                          \<and> scheduled_platform entry \<in> set rest) added"
          by blast
        have "scheduled_posts (fst (platform_loop environ p schedule (platform # rest) self
                                      results))
                = scheduled_posts self @ (scheduled # added)"
          using Some True Inr a(1) by simp
        moreover have "list_all (\<lambda>entry. platforms self (scheduled_platform entry) \<noteq> None
                          \<and> scheduled_platform entry \<in> set (platform # rest))
                         (scheduled # added)"
          using a(2) Some plat by (auto simp: list_all_iff)
        ultimately show ?thesis by blast
      qed
    qed
  qed
qed

lemma platform_loop_not_configured:
  assumes "platforms self name = None"
    and "name \<in> set requested \<or> map_of results name = Some (not_configured name)"
    and "snd (platform_loop environ p schedule requested self results) = Inr out"
  shows "map_of out name = Some (not_configured name)"
  using assms
proof (induction requested arbitrary: self results)
  case Nil
  then show ?case by simp
next
  case (Cons platform rest)
  show ?case
  proof (cases "platform = name")
    case True
    have "map_of (dict_set results name (not_configured name)) name
            = Some (not_configured name)"
      by (simp add: map_of_dict_set)
    then have "name \<in> set rest
                 \<or> map_of (dict_set results name (not_configured name)) name
                     = Some (not_configured name)"
      by blast
    from Cons.IH [OF Cons.prems(1) this]
    show ?thesis
      using True Cons.prems(1,3) by simp
  next
    case False
    with Cons.prems(2) have
      rest: "name \<in> set rest \<or> map_of results name = Some (not_configured name)"
      by auto
    have keep: "name \<in> set rest
                  \<or> map_of (dict_set results platform v) name = Some (not_configured name)"
      for v
      using rest False by (auto simp: map_of_dict_set)
    have step: "map_of out name = Some (not_configured name)"
      if "platforms self' name = None"
        and "snd (platform_loop environ p schedule rest self'
                    (dict_set results platform v)) = Inr out"
      for self' v
      by (rule Cons.IH [OF that(1) keep that(2)])
    have step0: "map_of out name = Some (not_configured name)"
      if "snd (platform_loop environ p schedule rest self (dict_set results platform v))
            = Inr out" for v
      using Cons.prems(1) that by (rule step)
    have step1: "map_of out name = Some (not_configured name)"
      if "snd (platform_loop environ p schedule rest
                 (self\<lparr>invocations := invocations self @ [(platform, p)]\<rparr>)
                 (dict_set results platform v)) = Inr out" for v
      using that by (intro step [of _ v]) (simp_all add: Cons.prems(1))
    have step2: "map_of out name = Some (not_configured name)"
      if "snd (platform_loop environ p schedule rest
                 (self\<lparr>scheduled_posts := scheduled_posts self @ [scheduled],
                       uuid_draws := Suc (uuid_draws self)\<rparr>)
                 (dict_set results platform v)) = Inr out" for v scheduled
      using that by (intro step [of _ v]) (simp_all add: Cons.prems(1))
    show ?thesis
      using Cons.prems(3) step0 step1 step2
      by (auto split: option.splits sum.splits if_splits)
  qed
qed

lemma platform_loop_raises:
  assumes "snd (platform_loop environ p schedule requested self results) = Inl e"
  shows "\<not> is_exception e \<and> \<not> truthy schedule
    \<and> scheduled_posts (fst (platform_loop environ p schedule requested self results))
        = scheduled_posts self"
  using assms
proof (induction requested arbitrary: self results)
  case Nil
  then show ?case by simp
next
  case (Cons platform rest)
  show ?case
  proof (cases "platforms self platform")
    case None
    with Cons.prems Cons.IH [of self "dict_set results platform (not_configured platform)"]
    show ?thesis by simp
  next
    case (Some client)
    show ?thesis
    proof (cases "truthy schedule")
      case True
      show ?thesis
      proof (cases "bindE (parse_schedule environ schedule)
                      (ScheduledPost (uuid4 environ (uuid_draws self)) p platform)")
        case (Inl e')
        have "is_exception e'" by (rule scheduling_raises_exception [OF Inl])
        with Cons.prems Some True Inl
          Cons.IH [of self "dict_set results platform (failure e')"]
        show ?thesis by simp
      next
        case (Inr scheduled)
        with Cons.prems Some True
          Cons.IH [of "self\<lparr>scheduled_posts := scheduled_posts self @ [scheduled],
                            uuid_draws := Suc (uuid_draws self)\<rparr>"
                      "dict_set results platform (scheduled_ack schedule)"]
        show ?thesis by simp
      qed
    next
      case False
      let ?self' = "self\<lparr>invocations := invocations self @ [(platform, p)]\<rparr>"
      show ?thesis
      proof (cases "client_create_post client p")
        case (Inr result)
        with Cons.prems Some False
          Cons.IH [of ?self' "dict_set results platform (post_result_dict result)"]
        show ?thesis by simp
      next
        case (Inl e')
        show ?thesis
        proof (cases "is_exception e'")
          case True
          with Cons.prems Some False Inl
            Cons.IH [of ?self' "dict_set results platform (failure e')"]
          show ?thesis by simp
        next
          case no: False
          with Cons.prems Some False Inl show ?thesis by simp
        qed
      qed
    qed
  qed
qed

text \<open>
  The frame of the calendar, for every call of \<open>create_post\<close>: the calendar only grows,
  and every entry added is for a requested platform that has a registered capability.
  When the call raises, the calendar and the registered capabilities are unchanged, and
  the whole server is unchanged unless a capability raised outside \<^verbatim>\<open>Exception\<close>.
  When the call returns, the results entry of a requested platform without a capability
  is the not-configured error.
\<close>

lemma create_post_calendar_frame:
  "\<exists>added. scheduled_posts (fst (create_post environ args self)) = scheduled_posts self @ added
     \<and> list_all (\<lambda>entry. platforms self (scheduled_platform entry) \<noteq> None) added"
proof (cases "create_post_prepare environ self args")
  case (Inl e)
  then show ?thesis by (simp add: create_post_def)
next
  case (Inr prepared)
  obtain p requested schedule where prepared: "prepared = (p, requested, schedule)"
    by (cases prepared)
  let ?self1 = "self\<lparr>uuid_draws := Suc (uuid_draws self)\<rparr>"
  from platform_loop_calendar [of environ p schedule requested ?self1 "[]"]
  obtain added where
    "scheduled_posts (fst (platform_loop environ p schedule requested ?self1 []))
       = scheduled_posts ?self1 @ added"
    "list_all (\<lambda>entry. platforms ?self1 (scheduled_platform entry) \<noteq> None
                        \<and> scheduled_platform entry \<in> set requested) added"
    by blast
  then show ?thesis
    using Inr prepared
    by (auto simp: create_post_def list_all_iff split: prod.split sum.split)
qed

lemma create_post_raises_unchanged:
  assumes "snd (create_post environ args self) = Inl e"
  shows "scheduled_posts (fst (create_post environ args self)) = scheduled_posts self
    \<and> platforms (fst (create_post environ args self)) = platforms self
    \<and> (is_exception e \<longrightarrow> fst (create_post environ args self) = self)"
proof (cases "create_post_prepare environ self args")
  case (Inl e')
  then show ?thesis by (simp add: create_post_def)
next
  case (Inr prepared)
  obtain p requested schedule where prepared: "prepared = (p, requested, schedule)"
    by (cases prepared)
  let ?self1 = "self\<lparr>uuid_draws := Suc (uuid_draws self)\<rparr>"
  let ?run = "platform_loop environ p schedule requested ?self1 []"
  obtain self' outcome where run: "?run = (self', outcome)"
    by (cases ?run)
  have cp: "create_post environ args self
              = (self', case outcome of Inl e \<Rightarrow> Inl e
                   | Inr results \<Rightarrow>
                       Inr (PDict
                         [(''results'', PDict results),
                          (''content'',
                           PDict [(''text'', PStr (post_text p)),
                                  (''hashtags'', PList (map PStr (post_hashtags p))),
                                  (''media_count'', PInt (int (length (post_media p))))])]))"
    using Inr prepared run by (simp add: create_post_def split: sum.split)
  from assms cp have out: "outcome = Inl e"
    by (cases outcome) simp_all
  then have "snd ?run = Inl e" using run by simp
  from platform_loop_raises [OF this]
  have "\<not> is_exception e" "scheduled_posts (fst ?run) = scheduled_posts ?self1"
    by blast+
  moreover have "platforms (fst ?run) = platforms ?self1"
    by (rule platform_loop_platforms)
  ultimately show ?thesis
    using cp run by simp
qed

lemma create_post_not_configured_entry:
  assumes "create_post environ args self = (self', Inr out)"
    and "getitem args ''platforms'' = Inr (PList requested)"
    and "PStr name \<in> set requested"
    and "platforms self name = None"
  shows "bindE (getitem out ''results'') (\<lambda>results. getitem results name)
           = Inr (not_configured name)"
proof -
  from assms(1) obtain p names schedule where
    prep: "create_post_prepare environ self args = Inr (p, names, schedule)"
    by (auto simp: create_post_def split: sum.splits prod.splits)
  have names: "str_items requested = Inr names"
    using prep assms(2)
    by (auto simp: create_post_prepare_def as_str_list_def bindE_def split: sum.splits)
  have mem: "PStr name \<in> set vs \<Longrightarrow> str_items vs = Inr ss \<Longrightarrow> name \<in> set ss" for vs ss
  proof (induction vs arbitrary: ss rule: str_items.induct)
    case 1
    then show ?case by simp
  next
    case (2 s vs)
    then show ?case by (auto split: sum.splits)
  qed simp_all
  have inn: "name \<in> set names" by (rule mem [OF assms(3) names])
  let ?self1 = "self\<lparr>uuid_draws := Suc (uuid_draws self)\<rparr>"
  from assms(1) prep obtain results where
    run: "snd (platform_loop environ p schedule names ?self1 []) = Inr results"
    and out: "out = PDict
                  [(''results'', PDict results),
                   (''content'',
                    PDict [(''text'', PStr (post_text p)),
                           (''hashtags'', PList (map PStr (post_hashtags p))),
                           (''media_count'', PInt (int (length (post_media p))))])]"
    by (auto simp: create_post_def split: prod.splits sum.splits)
  have none: "platforms ?self1 name = None" using assms(4) by simp
  have "name \<in> set names \<or> map_of [] name = Some (not_configured name)"
    using inn by blast
  from platform_loop_not_configured [OF none this run]
  have "map_of results name = Some (not_configured name)" .
  then show ?thesis by (simp add: out)
qed

text \<open>
  C9 (the code at the failing input): a scheduled \<open>create_post\<close> for the platform
  \<^verbatim>\<open>nonexistent\<close> raises before the platform loop, on any server and in any
  environment: a \<^verbatim>\<open>ValueError\<close> when the timestamp does not parse, else the
  \<^verbatim>\<open>ValidationError\<close> of the \<open>Post\<close> constructor. The server, and with it the calendar,
  is unchanged, and no results entry exists for the platform.
\<close>

theorem create_post_scheduled_nonexistent_raises:
  "create_post environ
     (PDict [(''platforms'', PList [PStr ''nonexistent'']),
             (''content'', PDict [(''text'', PStr ''hi'')]),
             (''schedule'', PStr ''2030-01-01T09:00:00+00:00'')]) self
   = (self,
      Inl (case fromisoformat environ ''2030-01-01T09:00:00+00:00'' of
             None \<Rightarrow> ValueError (''Invalid isoformat string: ''
                                   @ quoted ''2030-01-01T09:00:00+00:00'')
           | Some d \<Rightarrow> enum_error ''Post'' ''nonexistent''))
   \<and> create_post example_env
       (PDict [(''platforms'', PList [PStr ''nonexistent'']),
               (''content'', PDict [(''text'', PStr ''hi'')]),
               (''schedule'', PStr ''2030-01-01T09:00:00+00:00'')]) example_server
     = (example_server, Inl (enum_error ''Post'' ''nonexistent''))"
proof -
  have prep: "create_post_prepare environ self
     (PDict [(''platforms'', PList [PStr ''nonexistent'']),
             (''content'', PDict [(''text'', PStr ''hi'')]),
             (''schedule'', PStr ''2030-01-01T09:00:00+00:00'')])
     = Inl (case fromisoformat environ ''2030-01-01T09:00:00+00:00'' of
             None \<Rightarrow> ValueError (''Invalid isoformat string: ''
                                   @ quoted ''2030-01-01T09:00:00+00:00'')
           | Some d \<Rightarrow> enum_error ''Post'' ''nonexistent'')" for environ self
    by (simp add: create_post_prepare_def as_str_list_def process_media_def
          content_hashtags_def generate_hashtags_hi Post_def nonexistent_not_platform
          parse_schedule_def split: option.split)
  have "fromisoformat example_env ''2030-01-01T09:00:00+00:00''
          = Some \<lparr>ordinal = 741078, hour = 9, minute = 0, second = 0, microsecond = 0\<rparr>"
    by (simp add: example_env_def)
  then show ?thesis
    by (simp add: create_post_def prep)
qed

lemma json_dumps_raises_exception: "json_dumps v = Inl e \<Longrightarrow> is_exception e"
  by (auto simp: json_dumps_def split: if_splits)

lemma cancelled_create_post:
  "create_post example_env
     (PDict [(''platforms'', PList [PStr ''facebook'']),
             (''content'', PDict [(''text'', PStr ''hi''),
                                  (''hashtags'', PList [PStr ''x''])])]) cancelled_server
   = (cancelled_server
        \<lparr>uuid_draws := 1,
         invocations :=
           [(''facebook'',
             \<lparr>post_id = ''id-0'', post_text = ''hi'', post_media = [],
                post_hashtags = [''x''], post_platforms = [''facebook''],
                post_scheduled_time = None\<rparr>)]\<rparr>,
      Inl (CancelledError []))"
proof -
  have u: "uuid4 example_env (uuid_draws cancelled_server) = ''id-0''"
    by code_simp
  have prep: "create_post_prepare example_env cancelled_server
          (PDict [(''platforms'', PList [PStr ''facebook'']),
                  (''content'',
                   PDict [(''text'', PStr ''hi''), (''hashtags'', PList [PStr ''x''])])])
        = Inr (\<lparr>post_id = ''id-0'', post_text = ''hi'',
                 post_media = [], post_hashtags = [''x''], post_platforms = [''facebook''],
                 post_scheduled_time = None\<rparr>, [''facebook''], PNone)"
    by (simp add: create_post_prepare_def as_str_list_def process_media_def
          content_hashtags_def Post_def PlatformType_def u)
  have c: "platforms cancelled_server ''facebook'' = Some cancelled_client"
    by (simp add: cancelled_server_def)
  have r: "client_create_post cancelled_client q = Inl (CancelledError [])" for q
    by (simp add: cancelled_client_def)
  have i: "uuid_draws cancelled_server = 0" "invocations cancelled_server = []"
    by (simp_all add: cancelled_server_def)
  show ?thesis
    by (simp add: create_post_def prep c r i)
qed

text \<open>
  C10 (as stated): \<open>handle_call_tool\<close> never propagates an exception, whatever the
  selected handler raises. Its handler is \<^verbatim>\<open>except Exception\<close>, and
  \<^verbatim>\<open>asyncio.CancelledError\<close> is not an \<^verbatim>\<open>Exception\<close>: when the call of a capability is
  cancelled while \<open>create_post\<close> awaits it, the \<^verbatim>\<open>CancelledError\<close> leaves the platform
  loop, \<open>create_post\<close> and \<open>handle_call_tool\<close>, and no content is returned.
\<close>

theorem handle_call_tool_cancelled_counterexample:
  "platforms cancelled_server ''facebook'' = Some cancelled_client
   \<and> (\<forall>p. client_create_post cancelled_client p = Inl (CancelledError []))
   \<and> snd (call_tool example_env example_tools ''create_post''
            (PDict [(''platforms'', PList [PStr ''facebook'']),
                    (''content'', PDict [(''text'', PStr ''hi''),
                                         (''hashtags'', PList [PStr ''x''])])])
            cancelled_server)
       = Inl (CancelledError [])
   \<and> snd (handle_call_tool example_env example_tools ''create_post''
            (PDict [(''platforms'', PList [PStr ''facebook'']),
                    (''content'', PDict [(''text'', PStr ''hi''),
                                         (''hashtags'', PList [PStr ''x''])])])
            cancelled_server)
       = Inl (CancelledError [])"
  by (simp add: handle_call_tool_def call_tool_def cancelled_create_post)
     (simp add: cancelled_server_def cancelled_client_def)

text \<open>
  C10 (amended): \<open>handle_call_tool\<close> never propagates an exception of a class derived
  from \<^verbatim>\<open>Exception\<close>. For every tool name and payload, if the dispatch or the selected
  handler raises such an exception \<open>e\<close> (a name that is none of the seven tools raises
  \<^verbatim>\<open>ValueError("Unknown tool: ...")\<close>, and \<^verbatim>\<open>json.dumps\<close> raises \<^verbatim>\<open>TypeError\<close> on a
  result it refuses), the value returned is one text content item whose body is the
  object with exactly the two fields \<open>error = str(e)\<close> and \<open>tool = name\<close>. When nothing
  is raised the value is one text content item with the result. An exception that is not
  derived from \<^verbatim>\<open>Exception\<close> (\<^verbatim>\<open>asyncio.CancelledError\<close>, \<^verbatim>\<open>KeyboardInterrupt\<close>,
  \<^verbatim>\<open>SystemExit\<close>) propagates to the caller, and nothing else does.
\<close>

theorem handle_call_tool_catches:
  "(\<forall>e. snd (call_tool environ handlers name arguments self) = Inl e \<and> is_exception e
         \<longrightarrow> snd (handle_call_tool environ handlers name arguments self)
               = Inr [TextContent ''text''
                        (PDict [(''error'', PStr (str_error e)), (''tool'', PStr name)])])
   \<and> (\<forall>result e. snd (call_tool environ handlers name arguments self) = Inr result
                  \<and> json_dumps result = Inl e
         \<longrightarrow> snd (handle_call_tool environ handlers name arguments self)
               = Inr [TextContent ''text''
                        (PDict [(''error'', PStr (str_error e)), (''tool'', PStr name)])])
   \<and> (\<forall>result text. snd (call_tool environ handlers name arguments self) = Inr result
                  \<and> json_dumps result = Inr text
         \<longrightarrow> snd (handle_call_tool environ handlers name arguments self)
               = Inr [TextContent ''text'' text])
   \<and> (name \<notin> set [''create_post'', ''get_analytics'', ''schedule_posts'',
                     ''generate_hashtags'', ''optimize_media'', ''get_trending'',
                     ''manage_calendar'']
         \<longrightarrow> snd (handle_call_tool environ handlers name arguments self)
               = Inr [TextContent ''text''
                        (PDict [(''error'', PStr (''Unknown tool: '' @ name)),
                                (''tool'', PStr name)])])
   \<and> (\<forall>e. snd (call_tool environ handlers name arguments self) = Inl e \<and> \<not> is_exception e
         \<longrightarrow> snd (handle_call_tool environ handlers name arguments self) = Inl e)
   \<and> (\<forall>e. snd (handle_call_tool environ handlers name arguments self) = Inl e
         \<longrightarrow> \<not> is_exception e
             \<and> snd (call_tool environ handlers name arguments self) = Inl e)
   \<and> (\<forall>content. snd (handle_call_tool environ handlers name arguments self) = Inr content
         \<longrightarrow> (\<exists>body. content = [TextContent ''text'' body]))
   \<and> fst (handle_call_tool environ handlers name arguments self)
       = fst (call_tool environ handlers name arguments self)"
proof -
  obtain self' outcome where c:
    "call_tool environ handlers name arguments self = (self', outcome)"
    by (cases "call_tool environ handlers name arguments self")
  have raised: "\<forall>e. snd (call_tool environ handlers name arguments self) = Inl e
                     \<and> is_exception e
         \<longrightarrow> snd (handle_call_tool environ handlers name arguments self)
               = Inr [TextContent ''text''
                        (PDict [(''error'', PStr (str_error e)), (''tool'', PStr name)])]"
    by (simp add: handle_call_tool_def c error_content_def)
  have dumps: "\<forall>result e. snd (call_tool environ handlers name arguments self) = Inr result
                  \<and> json_dumps result = Inl e
         \<longrightarrow> snd (handle_call_tool environ handlers name arguments self)
               = Inr [TextContent ''text''
                        (PDict [(''error'', PStr (str_error e)), (''tool'', PStr name)])]"
    using json_dumps_raises_exception
    by (auto simp: handle_call_tool_def c error_content_def)
  have fine: "\<forall>result text. snd (call_tool environ handlers name arguments self) = Inr result
                  \<and> json_dumps result = Inr text
         \<longrightarrow> snd (handle_call_tool environ handlers name arguments self)
               = Inr [TextContent ''text'' text]"
    by (simp add: handle_call_tool_def c)
  have unknown: "name \<notin> set [''create_post'', ''get_analytics'', ''schedule_posts'',
                     ''generate_hashtags'', ''optimize_media'', ''get_trending'',
                     ''manage_calendar'']
         \<longrightarrow> snd (handle_call_tool environ handlers name arguments self)
               = Inr [TextContent ''text''
                        (PDict [(''error'', PStr (''Unknown tool: '' @ name)),
                                (''tool'', PStr name)])]"
    by (simp add: handle_call_tool_def call_tool_def error_content_def)
  have passes: "\<forall>e. snd (call_tool environ handlers name arguments self) = Inl e
                     \<and> \<not> is_exception e
         \<longrightarrow> snd (handle_call_tool environ handlers name arguments self) = Inl e"
    by (simp add: handle_call_tool_def c)
  have only: "\<forall>e. snd (handle_call_tool environ handlers name arguments self) = Inl e
         \<longrightarrow> \<not> is_exception e
             \<and> snd (call_tool environ handlers name arguments self) = Inl e"
  proof (intro allI impI)
    fix e
    assume h: "snd (handle_call_tool environ handlers name arguments self) = Inl e"
    show "\<not> is_exception e \<and> snd (call_tool environ handlers name arguments self) = Inl e"
    proof (cases outcome)
      case (Inl e')
      with h show ?thesis
        by (simp add: handle_call_tool_def c split: if_splits)
    next
      case (Inr result)
      show ?thesis
      proof (cases "json_dumps result")
        case (Inl e')
        with h Inr json_dumps_raises_exception [OF Inl] show ?thesis
          by (simp add: handle_call_tool_def c)
      next
        case dumped: (Inr rendered)
        with h Inr show ?thesis
          by (simp add: handle_call_tool_def c)
      qed
    qed
  qed
  have one: "\<forall>content. snd (handle_call_tool environ handlers name arguments self)
                          = Inr content
         \<longrightarrow> (\<exists>body. content = [TextContent ''text'' body])"
    by (auto simp: handle_call_tool_def c error_content_def bindE_def
          split: sum.splits if_splits)
  have state: "fst (handle_call_tool environ handlers name arguments self)
                 = fst (call_tool environ handlers name arguments self)"
    by (simp add: handle_call_tool_def c split: sum.split)
  from raised dumps fine unknown passes only one state show ?thesis by blast
qed

theorem handle_call_tool_catches_witness:
  "''no_such_tool'' \<notin> set [''create_post'', ''get_analytics'', ''schedule_posts'',
                     ''generate_hashtags'', ''optimize_media'', ''get_trending'',
                     ''manage_calendar'']
   \<and> snd (handle_call_tool example_env example_tools ''no_such_tool'' PNone example_server)
       = Inr [TextContent ''text''
                (PDict [(''error'', PStr ''Unknown tool: no_such_tool''),
                        (''tool'', PStr ''no_such_tool'')])]
   \<and> snd (call_tool example_env example_tools ''schedule_posts''
            (PDict [(''posts'', PList [PDict [], PDict []]),
                    (''optimize_spacing'', PBool True)]) example_server)
       = Inl (NameError (''name '' @ quoted ''timedelta'' @ '' is not defined''))
   \<and> is_exception (NameError (''name '' @ quoted ''timedelta'' @ '' is not defined''))
   \<and> snd (handle_call_tool example_env example_tools ''schedule_posts''
            (PDict [(''posts'', PList [PDict [], PDict []]),
                    (''optimize_spacing'', PBool True)]) example_server)
       = Inr [TextContent ''text''
                (PDict [(''error'',
                         PStr (str_error
                                 (NameError (''name '' @ quoted ''timedelta''
                                               @ '' is not defined'')))),
                        (''tool'', PStr ''schedule_posts'')])]"
proof -
  have n: "''no_such_tool'' \<notin> set [''create_post'', ''get_analytics'', ''schedule_posts'',
                     ''generate_hashtags'', ''optimize_media'', ''get_trending'',
                     ''manage_calendar'']"
    by simp
  note t1 = handle_call_tool_catches
              [of example_env example_tools "''no_such_tool''" PNone example_server]
  from t1 n have u: "snd (handle_call_tool example_env example_tools ''no_such_tool'' PNone
                            example_server)
       = Inr [TextContent ''text''
                (PDict [(''error'', PStr (''Unknown tool: '' @ ''no_such_tool'')),
                        (''tool'', PStr ''no_such_tool'')])]"
    by blast
  have r: "snd (call_tool example_env example_tools ''schedule_posts''
            (PDict [(''posts'', PList [PDict [], PDict []]),
                    (''optimize_spacing'', PBool True)]) example_server)
       = Inl (NameError (''name '' @ quoted ''timedelta'' @ '' is not defined''))"
    by (simp add: call_tool_def schedule_posts_def timedelta_unbound)
  have x: "is_exception (NameError (''name '' @ quoted ''timedelta'' @ '' is not defined''))"
    by simp
  note t2 = handle_call_tool_catches
              [of example_env example_tools "''schedule_posts''"
                  "PDict [(''posts'', PList [PDict [], PDict []]),
                          (''optimize_spacing'', PBool True)]" example_server]
  from t2 r x have h: "snd (handle_call_tool example_env example_tools ''schedule_posts''
            (PDict [(''posts'', PList [PDict [], PDict []]),
                    (''optimize_spacing'', PBool True)]) example_server)
       = Inr [TextContent ''text''
                (PDict [(''error'',
                         PStr (str_error
                                 (NameError (''name '' @ quoted ''timedelta''
                                               @ '' is not defined'')))),
                        (''tool'', PStr ''schedule_posts'')])]"
    by blast
  from n u r x h show ?thesis by simp
qed

section \<open>Analytics: the aggregate is always zero\<close>

lemma sum_key_lacking:
  "list_all (lacks_key key) vs \<Longrightarrow> sum_key key vs = Inr 0"
  by (induction key vs rule: sum_key.induct) (auto simp: lacks_key_def)

lemma dict_set_values:
  "list_all P (map snd kvs) \<Longrightarrow> P v \<Longrightarrow> list_all P (map snd (dict_set kvs k v))"
  by (induction kvs) auto

lemma analytics_dict_lacks:
  "lacks_key ''impressions'' (analytics_dict a)" "lacks_key ''engagement'' (analytics_dict a)"
  by (simp_all add: lacks_key_def analytics_dict_def)

lemma error_dict_lacks:
  "lacks_key ''impressions'' (PDict [(''error'', v)])"
  "lacks_key ''engagement'' (PDict [(''error'', v)])"
  by (simp_all add: lacks_key_def)

lemma analytics_entry_lacks:
  assumes "analytics_entry metric_type date_range post_ids self platform = Inr entry"
  shows "lacks_key ''impressions'' entry" and "lacks_key ''engagement'' entry"
  using assms unfolding analytics_entry_def
  by (auto simp: analytics_dict_lacks error_dict_lacks
        split: option.splits sum.splits if_splits)

lemma analytics_loop_lacks:
  assumes "\<And>platform entry.
             analytics_entry metric_type date_range post_ids self platform = Inr entry
             \<Longrightarrow> P entry"
    and "list_all P (map snd analytics_data)"
    and "analytics_loop metric_type date_range post_ids requested self analytics_data = Inr out"
  shows "list_all P (map snd out)"
  using assms(2,3)
proof (induction requested arbitrary: analytics_data)
  case Nil
  then show ?case by simp
next
  case (Cons platform rest)
  from Cons.prems(2) obtain entry where
    e: "analytics_entry metric_type date_range post_ids self platform = Inr entry"
    and r: "analytics_loop metric_type date_range post_ids rest self
              (dict_set analytics_data platform entry) = Inr out"
    by (auto split: sum.splits)
  from dict_set_values [OF Cons.prems(1) assms(1) [OF e]]
  show ?case by (rule Cons.IH [OF _ r])
qed

lemma analytics_sums_zero:
  assumes "analytics_loop metric_type date_range post_ids requested self [] = Inr out"
  shows "sum_key ''impressions'' (map snd out) = Inr 0"
    and "sum_key ''engagement'' (map snd out) = Inr 0"
proof -
  show "sum_key ''impressions'' (map snd out) = Inr 0"
    by (rule sum_key_lacking, rule analytics_loop_lacks [OF _ _ assms])
       (simp_all add: analytics_entry_lacks)
  show "sum_key ''engagement'' (map snd out) = Inr 0"
    by (rule sum_key_lacking, rule analytics_loop_lacks [OF _ _ assms])
       (simp_all add: analytics_entry_lacks)
qed

text \<open>
  Whenever \<open>get_analytics\<close> returns, whatever the capabilities answer, the aggregate is
  0, 0 and 0.
\<close>

lemma get_analytics_aggregate_zero:
  assumes "snd (get_analytics environ args self) = Inr out"
  shows "getitem out ''aggregated''
           = Inr (PDict [(''total_impressions'', PInt 0), (''total_engagement'', PInt 0),
                         (''engagement_rate'', PInt 0)])"
proof -
  from assms obtain analytics_data where
    "out = PDict
          [(''platforms'', PDict analytics_data),
           (''aggregated'',
            PDict [(''total_impressions'', PInt 0),
                   (''total_engagement'', PInt 0),
                   (''engagement_rate'', PInt 0)])]"
    by (auto simp: get_analytics_def bindE_eq_Inr analytics_sums_zero)
  then show ?thesis by simp
qed

section \<open>Content validation: results\<close>





end
